theory Spec2Isabelle
  imports Main "HOL-Library.Word"
begin

section \<open>Server-side async I/O (server/async.c)\<close>

text \<open>
  A shallow embedding of the async lifecycle manager of the wine server. The server is
  single-threaded, so every function of async.c is a function from the server state to
  the server state. Objects live in typed heaps indexed by their address, nullable
  pointers are \<open>nat option\<close> (\<open>None\<close> is \<open>NULL\<close>), and every call that leaves async.c
  (fd layer, APC queue, handle table, object runtime, ...) is appended to a trace.
\<close>

subsection \<open>Scalar types and status codes\<close>

type_synonym status_t = "32 word"      \<comment> \<open>\<open>unsigned int\<close> status\<close>
type_synonym data_size_t = "32 word"   \<comment> \<open>\<open>unsigned int\<close>\<close>
type_synonym obj_handle_t = "32 word"
type_synonym client_ptr_t = "64 word"
type_synonym apc_param_t = "64 word"
type_synonym ptr = nat                 \<comment> \<open>address of a server object\<close>

text \<open>
  Modelled from the spec: the status codes and \<open>NT_ERROR\<close> come from ntstatus.h and
  winternl.h, which are not among the sources. The spec names the kinds PENDING, ALERTED,
  CANCELLED, HANDLES_CLOSED, INVALID_PARAMETER, NOT_FOUND and NO_MEMORY; the values are
  the NTSTATUS values of these names, and an NT error is a status whose two top bits are
  set.
\<close>

definition STATUS_PENDING :: status_t where "STATUS_PENDING = 0x103"
definition STATUS_ALERTED :: status_t where "STATUS_ALERTED = 0x101"
definition STATUS_HANDLES_CLOSED :: status_t where "STATUS_HANDLES_CLOSED = 0x8000000A"
definition STATUS_INVALID_PARAMETER :: status_t where "STATUS_INVALID_PARAMETER = 0xC000000D"
definition STATUS_NO_MEMORY :: status_t where "STATUS_NO_MEMORY = 0xC0000017"
definition STATUS_CANCELLED :: status_t where "STATUS_CANCELLED = 0xC0000120"
definition STATUS_NOT_FOUND :: status_t where "STATUS_NOT_FOUND = 0xC0000225"

definition NT_ERROR :: "status_t \<Rightarrow> bool" where
  "NT_ERROR s \<longleftrightarrow> drop_bit 30 s = 3"

subsection \<open>Objects\<close>

text \<open>The operations table an object header points to.\<close>

datatype object_ops = Async_ops | Iosb_ops | Other_ops nat

record iosb =
  status :: status_t
  result :: data_size_t
  in_size :: data_size_t
  in_data :: "8 word list option"
  out_size :: data_size_t
  out_data :: "8 word list option"

text \<open>\<open>async_data_t\<close>: the client-supplied description of the request.\<close>

record async_data =
  data_event :: obj_handle_t
  data_user :: client_ptr_t
  data_iosb :: client_ptr_t
  data_apc :: client_ptr_t
  data_apc_context :: apc_param_t

text \<open>
  \<open>struct async\<close>. The field \<open>ops\<close> is \<open>obj.ops\<close> of the object header; the two list
  links \<open>queue_entry\<close> and \<open>process_entry\<close> are represented by the lists they are
  linked into (\<open>queues\<close> and \<open>process_asyncs\<close> of the state).
\<close>

record async =
  ops :: object_ops
  thread :: ptr
  queue :: "ptr option"
  fd :: "ptr option"
  timeout :: "ptr option"
  timeout_status :: status_t
  event :: "ptr option"
  data :: async_data
  iosb :: "ptr option"
  wait_handle :: obj_handle_t
  signaled :: bool
  pending :: bool
  direct_result :: bool
  alerted :: bool
  terminated :: bool
  unknown_status :: bool
  completion :: "ptr option"
  comp_key :: apc_param_t
  comp_flags :: "32 word"
  completion_callback :: "ptr option"
  completion_callback_private :: ptr

subsection \<open>Collaborator calls\<close>

text \<open>\<open>apc_call_t\<close>, restricted to the two members async.c fills in.\<close>

datatype apc_call =
    APC_ASYNC_IO client_ptr_t client_ptr_t status_t      \<comment> \<open>user, sb, status\<close>
  | APC_USER client_ptr_t apc_param_t client_ptr_t apc_param_t  \<comment> \<open>func, args[0..2]\<close>

text \<open>
  One constructor per external function async.c calls, with the arguments of the call.
  A pointer argument that the code passes without a null check is a \<open>ptr option\<close>.
  The object runtime is outside the model: \<open>grab_object\<close> and \<open>release_object\<close> are
  entries of the trace, reference counts are not kept and async_destroy, which the
  runtime calls when the last reference goes, is not run. The model speaks of asyncs that
  are alive.
\<close>

datatype call =
    Fd_reselect_async ptr ptr
  | Fd_cancel_async ptr ptr
  | Set_fd_signaled "ptr option" bool
  | Thread_queue_apc "ptr option" ptr "ptr option" apc_call
  | Add_completion ptr apc_param_t apc_param_t status_t apc_param_t
  | Set_event ptr
  | Wake_up ptr nat
  | Close_handle ptr obj_handle_t
  | Remove_timeout_user ptr
  | Completion_callback ptr ptr
  | Grab_async ptr
  | Release_async ptr
  | Release_fd "ptr option"
  | Release_object ptr
  | Set_reply_data_ptr "8 word list" data_size_t
  | Grab_iosb ptr
  | Release_iosb ptr
  | Free "8 word list option"
  | Set_wait_status ptr status_t

subsection \<open>The server state\<close>

text \<open>
  The heaps of async and iosb objects, the async queues (\<open>queue->queue\<close>), the async
  list of every process (\<open>process->asyncs\<close>), the error of the current request
  (\<open>get_error\<close>/\<open>set_error\<close>) and the trace of collaborator calls. The remaining
  fields are what the collaborators answer: \<open>thread->process\<close>, \<open>get_fd_user\<close>,
  \<open>is_fd_overlapped\<close>, \<open>fd_get_completion\<close> (port and key), \<open>get_handle_obj\<close>,
  \<open>get_reply_max_size\<close> and the current thread; \<open>reply_size\<close> is \<open>reply->size\<close> of
  the get_async_result reply.
\<close>

record state =
  asyncs :: "ptr \<Rightarrow> async"
  iosbs :: "ptr \<Rightarrow> iosb"
  queues :: "ptr \<Rightarrow> ptr list"
  process_asyncs :: "ptr \<Rightarrow> ptr list"
  last_error :: status_t
  calls :: "call list"
  thread_process :: "ptr \<Rightarrow> ptr"
  get_fd_user :: "ptr \<Rightarrow> ptr option"
  is_fd_overlapped :: "ptr \<Rightarrow> bool"
  fd_get_completion :: "ptr option \<Rightarrow> ptr option \<times> apc_param_t"
  get_handle_obj :: "ptr \<Rightarrow> obj_handle_t \<Rightarrow> ptr option"
  get_reply_max_size :: data_size_t
  current :: ptr
  reply_size :: data_size_t

text \<open>What goes wrong when the C code dereferences \<open>NULL\<close> or an assertion fails.\<close>

datatype fault = Null_deref | Assert_failed

definition call :: "call \<Rightarrow> state \<Rightarrow> state" where
  "call c st = st\<lparr>calls := calls st @ [c]\<rparr>"

definition upd_async :: "ptr \<Rightarrow> (async \<Rightarrow> async) \<Rightarrow> state \<Rightarrow> state" where
  "upd_async p f st = st\<lparr>asyncs := (asyncs st)(p := f (asyncs st p))\<rparr>"

definition upd_iosb :: "ptr \<Rightarrow> (iosb \<Rightarrow> iosb) \<Rightarrow> state \<Rightarrow> state" where
  "upd_iosb p f st = st\<lparr>iosbs := (iosbs st)(p := f (iosbs st p))\<rparr>"

definition set_error :: "status_t \<Rightarrow> state \<Rightarrow> state" where
  "set_error s st = st\<lparr>last_error := s\<rparr>"

subsection \<open>async_reselect and async_terminate\<close>

definition async_reselect :: "ptr \<Rightarrow> state \<Rightarrow> state" where
  "async_reselect p st =
     (case (queue (asyncs st p), fd (asyncs st p)) of
        (Some q, Some f) \<Rightarrow> call (Fd_reselect_async f q) st
      | _ \<Rightarrow> st)"

text \<open>
  The status carried by the \<open>APC_ASYNC_IO\<close> call: \<open>iosb\<close> is the pointer read at the
  entry of async_terminate, its fields are read when the call is built.
\<close>

definition apc_status :: "ptr option \<Rightarrow> status_t \<Rightarrow> state \<Rightarrow> status_t" where
  "apc_status i s st =
     (case i of
        None \<Rightarrow> s
      | Some b \<Rightarrow>
          if result (iosbs st b) \<noteq> 0 \<or> out_data (iosbs st b) \<noteq> None
          then STATUS_ALERTED else s)"

definition async_terminate :: "ptr \<Rightarrow> status_t \<Rightarrow> state \<Rightarrow> state" where
  "async_terminate p s st =
     (let i = iosb (asyncs st p) in
      if terminated (asyncs st p) then st
      else
        let st1 = upd_async p (\<lambda>a. a\<lparr>terminated := True\<rparr>) st;
            st2 = (case iosb (asyncs st1 p) of
                     Some b \<Rightarrow>
                       if status (iosbs st1 b) = STATUS_PENDING
                       then upd_iosb b (\<lambda>x. x\<lparr>status := s\<rparr>) st1 else st1
                   | None \<Rightarrow> st1);
            st3 = (if s = STATUS_ALERTED
                   then upd_async p (\<lambda>a. a\<lparr>alerted := True\<rparr>) st2 else st2);
            st4 = call (Grab_async p) st3;
            st5 = (if \<not> direct_result (asyncs st4 p)
                   then call (Thread_queue_apc
                                (Some (thread_process st4 (thread (asyncs st4 p))))
                                (thread (asyncs st4 p)) (Some p)
                                (APC_ASYNC_IO (data_user (data (asyncs st4 p)))
                                              (data_iosb (data (asyncs st4 p)))
                                              (apc_status i s st4))) st4
                   else st4);
            st6 = async_reselect p st5
        in call (Release_async p) st6)"

subsection \<open>Queues\<close>

text \<open>
  The body of the loop of free_async_queue for one entry, then the loop over the entries
  of the queue. The entries stay linked: the function never calls \<open>list_remove\<close>.
\<close>

definition free_async_queue_entry :: "ptr \<Rightarrow> state \<Rightarrow> state" where
  "free_async_queue_entry p st =
     (let st1 = (if completion (asyncs st p) = None
                 then upd_async p (\<lambda>a. a\<lparr>completion := fst (fd_get_completion st (fd a)),
                                          comp_key := snd (fd_get_completion st (fd a))\<rparr>) st
                 else st);
          st2 = upd_async p (\<lambda>a. a\<lparr>fd := None\<rparr>) st1;
          st3 = async_terminate p STATUS_HANDLES_CLOSED st2;
          st4 = upd_async p (\<lambda>a. a\<lparr>queue := None\<rparr>) st3
      in call (Release_async p) st4)"

fun free_async_queue_loop :: "ptr list \<Rightarrow> state \<Rightarrow> state" where
  "free_async_queue_loop [] st = st"
| "free_async_queue_loop (p # ps) st = free_async_queue_loop ps (free_async_queue_entry p st)"

definition free_async_queue :: "ptr \<Rightarrow> state \<Rightarrow> state" where
  "free_async_queue q st = free_async_queue_loop (queues st q) st"

definition queue_async :: "ptr \<Rightarrow> ptr \<Rightarrow> state \<Rightarrow> state" where
  "queue_async q p st =
     (let st1 = call (Release_fd (fd (asyncs st p))) st;
          st2 = upd_async p (\<lambda>a. a\<lparr>queue := Some q\<rparr>) st1;
          st3 = call (Grab_async p) st2;
          st4 = st3\<lparr>queues := (queues st3)(q := queues st3 q @ [p])\<rparr>
      in call (Set_fd_signaled (fd (asyncs st4 p)) False) st4)"

text \<open>The loop of async_wake_up over the entries of the queue, head first.\<close>

fun async_wake_up_loop :: "ptr list \<Rightarrow> status_t \<Rightarrow> state \<Rightarrow> state" where
  "async_wake_up_loop [] s st = st"
| "async_wake_up_loop (p # ps) s st =
     (let st1 = async_terminate p s st
      in if s = STATUS_ALERTED then st1 else async_wake_up_loop ps s st1)"

definition async_wake_up :: "ptr \<Rightarrow> status_t \<Rightarrow> state \<Rightarrow> state" where
  "async_wake_up q s st = async_wake_up_loop (queues st q) s st"

subsection \<open>Mutators\<close>

definition set_async_pending :: "ptr \<Rightarrow> bool \<Rightarrow> state \<Rightarrow> state" where
  "set_async_pending p signal st =
     (if \<not> terminated (asyncs st p) then
        let st1 = upd_async p (\<lambda>a. a\<lparr>pending := True, unknown_status := False\<rparr>) st
        in if signal \<and> \<not> signaled (asyncs st1 p)
           then call (Wake_up p 0) (upd_async p (\<lambda>a. a\<lparr>signaled := True\<rparr>) st1)
           else st1
      else st)"

definition async_set_unknown_status :: "ptr \<Rightarrow> state \<Rightarrow> state" where
  "async_set_unknown_status p st =
     upd_async p (\<lambda>a. a\<lparr>unknown_status := True, direct_result := False\<rparr>) st"

subsection \<open>async_handoff\<close>

text \<open>
  The part of async_handoff after the two early returns, up to the second test of the
  iosb status: terminate with the current error, or hand the output buffer to the reply.
  \<open>async->iosb->status\<close> is read without a null check.
\<close>

definition async_handoff_status :: "ptr \<Rightarrow> state \<Rightarrow> fault + state" where
  "async_handoff_status p st =
     (if last_error st \<noteq> STATUS_PENDING then Inr (async_terminate p (last_error st) st)
      else case iosb (asyncs st p) of
             None \<Rightarrow> Inl Null_deref
           | Some b \<Rightarrow>
               if status (iosbs st b) \<noteq> STATUS_PENDING then
                 (case out_data (iosbs st b) of
                    Some d \<Rightarrow> Inr (upd_iosb b (\<lambda>x. x\<lparr>out_data := None\<rparr>)
                                    (call (Set_reply_data_ptr d (out_size (iosbs st b))) st))
                  | None \<Rightarrow> Inr st)
               else Inr st)"

text \<open>
  The rest of async_handoff. \<open>res\<close> says whether the \<open>result\<close> pointer is non-null; the
  second component of the answer is the value written through it, if any.
\<close>

definition async_handoff_finish ::
  "ptr \<Rightarrow> bool \<Rightarrow> bool \<Rightarrow> state \<Rightarrow> fault + (obj_handle_t \<times> data_size_t option \<times> state)" where
  "async_handoff_finish p res force_blocking st =
     (case iosb (asyncs st p) of
        None \<Rightarrow> Inl Null_deref
      | Some b \<Rightarrow>
          if status (iosbs st b) \<noteq> STATUS_PENDING then
            let st1 = upd_async p (\<lambda>a. a\<lparr>signaled := True\<rparr>) st;
                st2 = set_error (status (iosbs st1 b)) st1
            in Inr (wait_handle (asyncs st2 p),
                    (if res then Some (result (iosbs st b)) else None), st2)
          else
            let st1 = upd_async p (\<lambda>a. a\<lparr>direct_result := False, pending := True\<rparr>) st;
                st2 = (case fd (asyncs st1 p) of
                         Some f \<Rightarrow>
                           if \<not> force_blocking \<and> is_fd_overlapped st1 f then
                             upd_async p (\<lambda>a. a\<lparr>wait_handle := 0\<rparr>)
                               (call (Close_handle (thread_process st1 (thread (asyncs st1 p)))
                                                   (wait_handle (asyncs st1 p))) st1)
                           else st1
                       | None \<Rightarrow> st1);
                st3 = set_error (status (iosbs st2 b)) st2
            in Inr (wait_handle (asyncs st3 p), None, st3))"

definition async_handoff ::
  "ptr \<Rightarrow> bool \<Rightarrow> bool \<Rightarrow> state \<Rightarrow> fault + (obj_handle_t \<times> data_size_t option \<times> state)" where
  "async_handoff p res force_blocking st =
     (if unknown_status (asyncs st p) then
        Inr (wait_handle (asyncs st p), None, set_error STATUS_PENDING st)
      else if \<not> pending (asyncs st p) \<and> NT_ERROR (last_error st) then
        Inr (0, None,
             upd_async p (\<lambda>a. a\<lparr>wait_handle := 0\<rparr>)
               (call (Close_handle (thread_process st (thread (asyncs st p)))
                                   (wait_handle (asyncs st p))) st))
      else case async_handoff_status p st of
             Inl e \<Rightarrow> Inl e
           | Inr st1 \<Rightarrow> async_handoff_finish p res force_blocking st1)"

subsection \<open>async_set_result\<close>

text \<open>
  Modelled from the spec: \<open>FILE_SKIP_COMPLETION_PORT_ON_SUCCESS\<close> is a flag bit of
  winternl.h, which is not among the sources ("the completion port is not configured to
  skip on success"); its value there is 1.
\<close>

definition FILE_SKIP_COMPLETION_PORT_ON_SUCCESS :: "32 word" where
  "FILE_SKIP_COMPLETION_PORT_ON_SUCCESS = 1"

definition add_async_completion ::
  "ptr \<Rightarrow> apc_param_t \<Rightarrow> status_t \<Rightarrow> apc_param_t \<Rightarrow> state \<Rightarrow> state" where
  "add_async_completion p cvalue s information st =
     (let st1 = (if fd (asyncs st p) \<noteq> None \<and> completion (asyncs st p) = None
                 then upd_async p (\<lambda>a. a\<lparr>completion := fst (fd_get_completion st (fd a)),
                                          comp_key := snd (fd_get_completion st (fd a))\<rparr>) st
                 else st)
      in case completion (asyncs st1 p) of
           Some c \<Rightarrow> call (Add_completion c (comp_key (asyncs st1 p)) cvalue s information) st1
         | None \<Rightarrow> st1)"

text \<open>
  The else branch of async_set_result: the final completion and its fan-out.
  \<open>list_remove\<close> unlinks the entry from the list it is in; here the async is removed
  from every queue list.
\<close>

definition async_set_result_final :: "ptr \<Rightarrow> status_t \<Rightarrow> apc_param_t \<Rightarrow> state \<Rightarrow> state" where
  "async_set_result_final p s tot st =
     (let st1 = (case timeout (asyncs st p) of
                   Some t \<Rightarrow> call (Remove_timeout_user t) st | None \<Rightarrow> st);
          st2 = upd_async p (\<lambda>a. a\<lparr>timeout := None, terminated := True\<rparr>) st1;
          st3 = (case iosb (asyncs st2 p) of
                   Some b \<Rightarrow> upd_iosb b (\<lambda>x. x\<lparr>status := s\<rparr>) st2 | None \<Rightarrow> st2);
          a3 = asyncs st3 p;
          st4 = (if data_apc (data a3) \<noteq> 0 then
                   call (Thread_queue_apc None (thread a3) None
                           (APC_USER (data_apc (data a3)) (data_apc_context (data a3))
                                     (data_iosb (data a3)) 0)) st3
                 else if data_apc_context (data a3) \<noteq> 0 \<and>
                         (pending a3 \<or>
                          and (comp_flags a3) FILE_SKIP_COMPLETION_PORT_ON_SUCCESS = 0) then
                   add_async_completion p (data_apc_context (data a3)) s tot st3
                 else st3);
          st5 = (case event (asyncs st4 p) of
                   Some e \<Rightarrow> call (Set_event e) st4
                 | None \<Rightarrow>
                     (case fd (asyncs st4 p) of
                        Some f \<Rightarrow> call (Set_fd_signaled (Some f) True) st4
                      | None \<Rightarrow> st4));
          st6 = (if \<not> signaled (asyncs st5 p)
                 then call (Wake_up p 0) (upd_async p (\<lambda>a. a\<lparr>signaled := True\<rparr>) st5)
                 else st5);
          st7 = (case completion_callback (asyncs st6 p) of
                   Some f \<Rightarrow>
                     call (Completion_callback f (completion_callback_private (asyncs st6 p))) st6
                 | None \<Rightarrow> st6);
          st8 = upd_async p (\<lambda>a. a\<lparr>completion_callback := None\<rparr>) st7;
          st9 = async_reselect p st8
      in case queue (asyncs st9 p) of
           Some q \<Rightarrow>
             call (Release_async p)
               (upd_async p (\<lambda>a. a\<lparr>queue := None\<rparr>)
                  ((upd_async p (\<lambda>a. a\<lparr>fd := None\<rparr>) st9)
                     \<lparr>queues := (\<lambda>x. removeAll p (queues st9 x))\<rparr>))
         | None \<Rightarrow> st9)"

text \<open>
  \<open>obj\<close> is any object: the cast to \<open>struct async *\<close> comes first and the operations
  table is tested afterwards, so the heap of asyncs is read at \<open>obj\<close> whatever it holds.
\<close>

definition async_set_result :: "ptr \<Rightarrow> status_t \<Rightarrow> apc_param_t \<Rightarrow> state \<Rightarrow> fault + state" where
  "async_set_result obj s tot st =
     (if ops (asyncs st obj) \<noteq> Async_ops then Inr st
      else if \<not> terminated (asyncs st obj) then Inl Assert_failed
      else if alerted (asyncs st obj) \<and> s = STATUS_PENDING then
        Inr (async_reselect obj
               (upd_async obj (\<lambda>a. a\<lparr>terminated := False, alerted := False\<rparr>) st))
      else Inr (async_set_result_final obj s tot st))"

subsection \<open>Timeout, completion of a request, and the wait on an async\<close>

definition async_timeout :: "ptr \<Rightarrow> state \<Rightarrow> state" where
  "async_timeout p st =
     (let st1 = upd_async p (\<lambda>a. a\<lparr>timeout := None\<rparr>) st
      in async_terminate p (timeout_status (asyncs st1 p)) st1)"

text \<open>
  async_request_complete: \<open>async_get_iosb\<close> answers the iosb pointer as it is (grabbed
  when non-null) and \<open>iosb->status\<close> is read without a null check.
\<close>

definition async_request_complete ::
  "ptr \<Rightarrow> status_t \<Rightarrow> data_size_t \<Rightarrow> data_size_t \<Rightarrow> 8 word list option \<Rightarrow> state
   \<Rightarrow> fault + state" where
  "async_request_complete p s res osize odata st =
     (case iosb (asyncs st p) of
        None \<Rightarrow> Inl Null_deref
      | Some b \<Rightarrow>
          let st1 = call (Grab_iosb b) st
          in if status (iosbs st1 b) \<noteq> STATUS_PENDING
             then Inr (call (Free odata) (call (Release_iosb b) st1))
             else
               let st2 = upd_iosb b (\<lambda>x. x\<lparr>status := s, result := res,
                                            out_data := odata, out_size := osize\<rparr>) st1;
                   st3 = call (Release_iosb b) st2
               in Inr (async_terminate p s st3))"

text \<open>
  async_satisfied, the \<open>satisfied\<close> operation of the async object: \<open>entry\<close> is the wait
  queue entry. The two assertions come first; \<open>total\<close> is the iosb result widened to
  \<open>apc_param_t\<close>.
\<close>

definition async_satisfied :: "ptr \<Rightarrow> ptr \<Rightarrow> state \<Rightarrow> fault + state" where
  "async_satisfied obj entry st =
     (if ops (asyncs st obj) \<noteq> Async_ops then Inl Assert_failed
      else case iosb (asyncs st obj) of
             None \<Rightarrow> Inl Assert_failed
           | Some b \<Rightarrow>
               (case (if direct_result (asyncs st obj)
                      then (case async_set_result obj (status (iosbs st b))
                                   (ucast (result (iosbs st b))) st of
                              Inl f \<Rightarrow> Inl f
                            | Inr st1 \<Rightarrow>
                                Inr (upd_async obj (\<lambda>a. a\<lparr>direct_result := False\<rparr>) st1))
                      else Inr st) of
                  Inl f \<Rightarrow> Inl f
                | Inr st2 \<Rightarrow>
                    (case iosb (asyncs st2 obj) of
                       None \<Rightarrow> Inl Null_deref
                     | Some b2 \<Rightarrow>
                         let st3 = call (Set_wait_status entry (status (iosbs st2 b2))) st2
                         in if wait_handle (asyncs st3 obj) \<noteq> 0
                            then Inr (upd_async obj (\<lambda>a. a\<lparr>wait_handle := 0\<rparr>)
                                        (call (Close_handle
                                                 (thread_process st3 (thread (asyncs st3 obj)))
                                                 (wait_handle (asyncs st3 obj))) st3))
                            else Inr st3)))"

subsection \<open>Cancellation\<close>

text \<open>
  Modelled from the spec: get_fd_user and fd_cancel_async live in fd.c, which is not
  among the sources. Both read through their fd argument (\<open>fd->user\<close>, \<open>fd->fd_ops\<close>) and
  cancel_async hands them \<open>async->fd\<close> without a null test, so a null fd is a null
  dereference. get_fd_user answers the user object of the fd (the state field
  \<open>get_fd_user\<close>), and of fd_cancel_async the spec says that it "synchronously re-enters
  async_terminate with CANCELLED".
\<close>

definition fd_cancel_async :: "ptr option \<Rightarrow> ptr \<Rightarrow> state \<Rightarrow> fault + state" where
  "fd_cancel_async fo p st =
     (case fo of
        None \<Rightarrow> Inl Null_deref
      | Some f \<Rightarrow> Inr (async_terminate p STATUS_CANCELLED (call (Fd_cancel_async f p) st)))"

text \<open>
  The test of the loop body of cancel_async on an async that is not terminated. The
  conjuncts are evaluated in order: get_fd_user is called only when \<open>obj\<close> is not null.
\<close>

definition cancel_match ::
  "state \<Rightarrow> ptr option \<Rightarrow> ptr option \<Rightarrow> client_ptr_t \<Rightarrow> ptr \<Rightarrow> fault + bool" where
  "cancel_match st obj thr cookie p =
     (case (case obj of
              None \<Rightarrow> Inr True
            | Some ob \<Rightarrow>
                (case fd (asyncs st p) of
                   None \<Rightarrow> Inl Null_deref
                 | Some f \<Rightarrow> Inr (get_fd_user st f = Some ob))) of
        Inl e \<Rightarrow> Inl e
      | Inr m \<Rightarrow>
          Inr (m \<and> (thr = None \<or> Some (thread (asyncs st p)) = thr) \<and>
               (cookie = 0 \<or> data_iosb (data (asyncs st p)) = cookie)))"

text \<open>
  One scan of the process list: terminated asyncs are skipped (\<open>continue\<close>), the scan
  stops at the first match.
\<close>

fun cancel_scan ::
  "state \<Rightarrow> ptr option \<Rightarrow> ptr option \<Rightarrow> client_ptr_t \<Rightarrow> ptr list \<Rightarrow> fault + ptr option" where
  "cancel_scan st obj thr cookie [] = Inr None"
| "cancel_scan st obj thr cookie (p # ps) =
     (if terminated (asyncs st p) then cancel_scan st obj thr cookie ps
      else case cancel_match st obj thr cookie p of
             Inl e \<Rightarrow> Inl e
           | Inr m \<Rightarrow> if m then Inr (Some p) else cancel_scan st obj thr cookie ps)"

text \<open>
  cancel_async from the label \<open>restart\<close>: a match is cancelled, counted and the scan
  restarts from the head. \<open>woken\<close> is a C \<open>int\<close>: a 32-bit word, read with \<open>sint\<close>, whose
  increment wraps.
\<close>

function cancel_async_from ::
  "ptr \<Rightarrow> ptr option \<Rightarrow> ptr option \<Rightarrow> client_ptr_t \<Rightarrow> 32 word \<Rightarrow> state
   \<Rightarrow> fault + (32 word \<times> state)" where
  "cancel_async_from process obj thr cookie woken st =
     (case cancel_scan st obj thr cookie (process_asyncs st process) of
        Inl e \<Rightarrow> Inl e
      | Inr None \<Rightarrow> Inr (woken, st)
      | Inr (Some p) \<Rightarrow>
          (case fd_cancel_async (fd (asyncs st p)) p st of
             Inl e \<Rightarrow> Inl e
           | Inr st1 \<Rightarrow> cancel_async_from process obj thr cookie (woken + 1) st1))"
  by pat_completeness auto

definition cancel_async ::
  "ptr \<Rightarrow> ptr option \<Rightarrow> ptr option \<Rightarrow> client_ptr_t \<Rightarrow> state \<Rightarrow> fault + (32 word \<times> state)" where
  "cancel_async process obj thr cookie st = cancel_async_from process obj thr cookie 0 st"

definition cancel_process_asyncs :: "ptr \<Rightarrow> state \<Rightarrow> fault + state" where
  "cancel_process_asyncs process st =
     (case cancel_async process None None 0 st of
        Inl e \<Rightarrow> Inl e
      | Inr (woken, st1) \<Rightarrow> Inr st1)"

subsection \<open>Request handlers\<close>

record cancel_async_request =
  req_handle :: obj_handle_t
  req_iosb :: client_ptr_t
  req_only_thread :: "32 word"

text \<open>
  \<open>DECL_HANDLER(cancel_async)\<close>. A handle that does not resolve leaves the request to
  get_handle_obj; \<open>count\<close> is the \<open>int\<close> cancel_async returns.
\<close>

definition req_cancel_async :: "cancel_async_request \<Rightarrow> state \<Rightarrow> fault + state" where
  "req_cancel_async req st =
     (let obj = get_handle_obj st (thread_process st (current st)) (req_handle req);
          thr = (if req_only_thread req \<noteq> 0 then Some (current st) else None)
      in case obj of
           None \<Rightarrow> Inr st
         | Some ob \<Rightarrow>
             (case cancel_async (thread_process st (current st)) (Some ob) thr
                     (req_iosb req) st of
                Inl e \<Rightarrow> Inl e
              | Inr (count, st1) \<Rightarrow>
                  let st2 = (if count = 0 \<and> req_iosb req \<noteq> 0
                             then set_error STATUS_NOT_FOUND st1 else st1)
                  in Inr (call (Release_object ob) st2)))"

text \<open>
  \<open>DECL_HANDLER(get_async_result)\<close>: the loop stops at the first async of the process
  whose \<open>data.user\<close> is \<open>user_arg\<close> and takes its iosb pointer, null or not.
\<close>

definition req_get_async_result :: "client_ptr_t \<Rightarrow> state \<Rightarrow> state" where
  "req_get_async_result user_arg st =
     (let i = (case find (\<lambda>p. data_user (data (asyncs st p)) = user_arg)
                      (process_asyncs st (thread_process st (current st))) of
                 Some p \<Rightarrow> iosb (asyncs st p)
               | None \<Rightarrow> None)
      in case i of
           None \<Rightarrow> set_error STATUS_INVALID_PARAMETER st
         | Some b \<Rightarrow>
             let st1 = (case out_data (iosbs st b) of
                          Some d \<Rightarrow>
                            let size = min (out_size (iosbs st b)) (get_reply_max_size st)
                            in if size \<noteq> 0
                               then upd_iosb b (\<lambda>x. x\<lparr>out_data := None\<rparr>)
                                      (call (Set_reply_data_ptr d size) st)
                               else st
                        | None \<Rightarrow> st);
                 st2 = st1\<lparr>reply_size := result (iosbs st1 b)\<rparr>
             in set_error (status (iosbs st2 b)) st2)"

subsection \<open>Sequences of operations\<close>

text \<open>
  The entry points of async.c that change an existing async, as operations, so that a
  property can be stated for every sequence of them. \<open>Set_error\<close> stands for the request
  layer setting the error of the current request. A run stops at the first fault.
\<close>

datatype operation =
    Async_terminate ptr status_t
  | Async_timeout ptr
  | Free_async_queue ptr
  | Queue_async ptr ptr
  | Set_async_pending ptr bool
  | Async_handoff ptr bool bool
  | Async_request_complete ptr status_t data_size_t data_size_t "8 word list option"
  | Async_set_unknown_status ptr
  | Async_set_result ptr status_t apc_param_t
  | Async_satisfied ptr ptr
  | Cancel_process_asyncs ptr
  | Async_wake_up ptr status_t
  | Req_cancel_async cancel_async_request
  | Req_get_async_result client_ptr_t
  | Set_error status_t

fun run :: "operation \<Rightarrow> state \<Rightarrow> fault + state" where
  "run (Async_terminate p s) st = Inr (async_terminate p s st)"
| "run (Async_timeout p) st = Inr (async_timeout p st)"
| "run (Free_async_queue q) st = Inr (free_async_queue q st)"
| "run (Queue_async q p) st = Inr (queue_async q p st)"
| "run (Set_async_pending p signal) st = Inr (set_async_pending p signal st)"
| "run (Async_handoff p res force_blocking) st =
     (case async_handoff p res force_blocking st of
        Inl f \<Rightarrow> Inl f
      | Inr (h, r, st1) \<Rightarrow> Inr st1)"
| "run (Async_request_complete p s res osize odata) st =
     async_request_complete p s res osize odata st"
| "run (Async_set_unknown_status p) st = Inr (async_set_unknown_status p st)"
| "run (Async_set_result obj s tot) st = async_set_result obj s tot st"
| "run (Async_satisfied obj entry) st = async_satisfied obj entry st"
| "run (Cancel_process_asyncs process) st = cancel_process_asyncs process st"
| "run (Async_wake_up q s) st = Inr (async_wake_up q s st)"
| "run (Req_cancel_async req) st = req_cancel_async req st"
| "run (Req_get_async_result user_arg) st = Inr (req_get_async_result user_arg st)"
| "run (Set_error s) st = Inr (set_error s st)"

fun run_all :: "operation list \<Rightarrow> state \<Rightarrow> fault + state" where
  "run_all [] st = Inr st"
| "run_all (x # xs) st = (case run x st of Inl f \<Rightarrow> Inl f | Inr st1 \<Rightarrow> run_all xs st1)"

text \<open>
  \<open>holds_along pre xs st\<close>: the condition \<open>pre\<close> holds for every operation of the run,
  in the state the operation starts from.
\<close>

fun holds_along :: "(operation \<Rightarrow> state \<Rightarrow> bool) \<Rightarrow> operation list \<Rightarrow> state \<Rightarrow> bool" where
  "holds_along pre [] st = True"
| "holds_along pre (x # xs) st =
     (pre x st \<and> (case run x st of Inl f \<Rightarrow> True | Inr st1 \<Rightarrow> holds_along pre xs st1))"

text \<open>
  queue_async releases the fd reference of the async, so its callers pass an async that
  still holds its fd.
\<close>

fun fd_held :: "operation \<Rightarrow> state \<Rightarrow> bool" where
  "fd_held (Queue_async q p) st = (fd (asyncs st p) \<noteq> None)"
| "fd_held _ st = True"

text \<open>
  No operation is given PENDING as the status to terminate or complete with; the client's
  reply to async_set_result may be PENDING for an alerted async, which is the restart.
\<close>

fun no_pending_status :: "operation \<Rightarrow> state \<Rightarrow> bool" where
  "no_pending_status (Async_terminate p s) st = (s \<noteq> STATUS_PENDING)"
| "no_pending_status (Async_timeout p) st = (timeout_status (asyncs st p) \<noteq> STATUS_PENDING)"
| "no_pending_status (Async_request_complete p s res osize odata) st = (s \<noteq> STATUS_PENDING)"
| "no_pending_status (Async_set_result obj s tot) st =
     (s = STATUS_PENDING \<longrightarrow> alerted (asyncs st obj))"
| "no_pending_status (Async_wake_up q s) st = (s \<noteq> STATUS_PENDING)"
| "no_pending_status _ st = True"

subsection \<open>Invariants\<close>

definition queued_has_fd :: "state \<Rightarrow> bool" where
  "queued_has_fd st \<longleftrightarrow> (\<forall>p. queue (asyncs st p) \<noteq> None \<longrightarrow> fd (asyncs st p) \<noteq> None)"

definition alerted_is_terminated :: "state \<Rightarrow> bool" where
  "alerted_is_terminated st \<longleftrightarrow> (\<forall>p. alerted (asyncs st p) \<longrightarrow> terminated (asyncs st p))"

definition terminated_not_pending :: "state \<Rightarrow> bool" where
  "terminated_not_pending st \<longleftrightarrow>
     (\<forall>p b. iosb (asyncs st p) = Some b \<longrightarrow> terminated (asyncs st p) \<longrightarrow>
            status (iosbs st b) \<noteq> STATUS_PENDING)"

text \<open>The fields the invariants read.\<close>

definition core :: "async \<Rightarrow> ptr option \<times> ptr option \<times> bool \<times> bool \<times> ptr option" where
  "core a = (queue a, fd a, terminated a, alerted a, iosb a)"

text \<open>Two states whose asyncs agree on these fields and whose iosbs agree on the status.\<close>

definition same_core :: "state \<Rightarrow> state \<Rightarrow> bool" where
  "same_core st st' \<longleftrightarrow>
     (\<forall>q. core (asyncs st' q) = core (asyncs st q)) \<and>
     (\<forall>b. status (iosbs st' b) = status (iosbs st b))"

subsection \<open>Detaching and restarting steps\<close>




text \<open>
  The operations that restart an async: the restart branch of async_set_result, reached
  with the client's PENDING reply or through async_satisfied.
\<close>

definition set_result_restarts :: "ptr \<Rightarrow> status_t \<Rightarrow> state \<Rightarrow> ptr \<Rightarrow> bool" where
  "set_result_restarts obj s st p \<longleftrightarrow>
     p = obj \<and> ops (asyncs st obj) = Async_ops \<and> terminated (asyncs st obj) \<and>
     alerted (asyncs st obj) \<and> s = STATUS_PENDING"

fun restarts :: "operation \<Rightarrow> state \<Rightarrow> ptr \<Rightarrow> bool" where
  "restarts (Async_set_result obj s tot) st p = set_result_restarts obj s st p"
| "restarts (Async_satisfied obj entry) st p =
     (direct_result (asyncs st obj) \<and>
      (case iosb (asyncs st obj) of
         None \<Rightarrow> False
       | Some b \<Rightarrow> set_result_restarts obj (status (iosbs st b)) st p))"
| "restarts _ st p = False"

definition not_restarting :: "ptr \<Rightarrow> operation \<Rightarrow> state \<Rightarrow> bool" where
  "not_restarting p x st \<longleftrightarrow> \<not> restarts x st p"

text \<open>
  An async that is not terminated has an iosb whose status is PENDING; the iosb of an
  async is the iosb of no other async.
\<close>

definition live_is_pending :: "state \<Rightarrow> ptr \<Rightarrow> bool" where
  "live_is_pending st p \<longleftrightarrow>
     (\<forall>b. iosb (asyncs st p) = Some b \<longrightarrow> \<not> terminated (asyncs st p) \<longrightarrow>
          status (iosbs st b) = STATUS_PENDING)"

definition iosb_own :: "state \<Rightarrow> ptr \<Rightarrow> bool" where
  "iosb_own st p \<longleftrightarrow>
     (\<forall>q b. iosb (asyncs st p) = Some b \<longrightarrow> iosb (asyncs st q) = Some b \<longrightarrow> q = p)"

text \<open>
  Two relations between the state before and the state after a step: every async keeps
  its fd; every async keeps its iosb pointer and the async \<open>p\<close>, unless it ends
  terminated, was not terminated and keeps the status of its iosb.
\<close>

definition fd_same :: "state \<Rightarrow> state \<Rightarrow> bool" where
  "fd_same st st' \<longleftrightarrow> (\<forall>q. fd (asyncs st' q) = fd (asyncs st q))"

definition steady :: "ptr \<Rightarrow> state \<Rightarrow> state \<Rightarrow> bool" where
  "steady p st st' \<longleftrightarrow>
     (\<forall>q. iosb (asyncs st' q) = iosb (asyncs st q)) \<and>
     (\<not> terminated (asyncs st' p) \<longrightarrow>
        \<not> terminated (asyncs st p) \<and>
        (\<forall>b. iosb (asyncs st p) = Some b \<longrightarrow> status (iosbs st' b) = status (iosbs st b)))"

subsection \<open>A concrete server state\<close>

text \<open>
  One request async at address 8, owned by thread 3 of process 4, on fd 7 whose user is
  object 9, with its iosb at address 2; every other address holds an object that is not
  an async.
\<close>

definition ex_iosb :: iosb where
  "ex_iosb = \<lparr>status = STATUS_PENDING, result = 0, in_size = 0, in_data = None,
              out_size = 0, out_data = None\<rparr>"

definition ex_async :: async where
  "ex_async = \<lparr>ops = Async_ops, thread = 3, queue = None, fd = Some 7, timeout = None,
               timeout_status = 0, event = None,
               data = \<lparr>data_event = 0, data_user = 0x1000, data_iosb = 0x2000,
                       data_apc = 0, data_apc_context = 0\<rparr>,
               iosb = Some 2, wait_handle = 0x24, signaled = False, pending = True,
               direct_result = False, alerted = False, terminated = False,
               unknown_status = False, completion = None, comp_key = 0, comp_flags = 0,
               completion_callback = None, completion_callback_private = 0\<rparr>"

definition ex_state :: state where
  "ex_state = \<lparr>asyncs = (\<lambda>_. ex_async\<lparr>ops := Other_ops 0, iosb := None\<rparr>)(8 := ex_async),
               iosbs = (\<lambda>_. ex_iosb),
               queues = (\<lambda>_. []),
               process_asyncs = (\<lambda>_. [])(4 := [8]),
               last_error = 0,
               calls = [],
               thread_process = (\<lambda>_. 4),
               get_fd_user = (\<lambda>f. if f = 7 then Some 9 else None),
               is_fd_overlapped = (\<lambda>_. True),
               fd_get_completion = (\<lambda>_. (None, 0)),
               get_handle_obj = (\<lambda>_ h. if h = 0x30 then Some 9 else None),
               get_reply_max_size = 16,
               current = 3,
               reply_size = 0\<rparr>"


subsection \<open>Reading the trace\<close>

definition is_apc :: "call \<Rightarrow> bool" where
  "is_apc c = (case c of Thread_queue_apc _ _ _ _ \<Rightarrow> True | _ \<Rightarrow> False)"

definition apc_calls :: "state \<Rightarrow> call list" where
  "apc_calls st = filter is_apc (calls st)"

definition is_cancel :: "call \<Rightarrow> bool" where
  "is_cancel c = (case c of Fd_cancel_async _ _ \<Rightarrow> True | _ \<Rightarrow> False)"

definition cancel_calls :: "state \<Rightarrow> call list" where
  "cancel_calls st = filter is_cancel (calls st)"


text \<open>
  The fd_cancel_async call made for an async that has an fd, and the effect of that call
  on the state; the asyncs of a list that are alive and without fd.
\<close>

definition cancel_call :: "state \<Rightarrow> ptr \<Rightarrow> call list" where
  "cancel_call st p =
     (case fd (asyncs st p) of None \<Rightarrow> [] | Some f \<Rightarrow> [Fd_cancel_async f p])"

definition cancel_one :: "ptr \<Rightarrow> state \<Rightarrow> state" where
  "cancel_one p st =
     (case fd (asyncs st p) of
        None \<Rightarrow> st
      | Some f \<Rightarrow> async_terminate p STATUS_CANCELLED (call (Fd_cancel_async f p) st))"



text \<open>
  The \<open>APC_ASYNC_IO\<close> call async_terminate makes for an async, and the call a reselect
  makes, as lists so that they can be appended to a trace.
\<close>

definition terminate_apc :: "ptr \<Rightarrow> status_t \<Rightarrow> state \<Rightarrow> call" where
  "terminate_apc p s st =
     Thread_queue_apc (Some (thread_process st (thread (asyncs st p))))
       (thread (asyncs st p)) (Some p)
       (APC_ASYNC_IO (data_user (data (asyncs st p))) (data_iosb (data (asyncs st p)))
          (case iosb (asyncs st p) of
             None \<Rightarrow> s
           | Some b \<Rightarrow>
               if result (iosbs st b) \<noteq> 0 \<or> out_data (iosbs st b) \<noteq> None
               then STATUS_ALERTED else s))"

definition reselect_calls :: "ptr \<Rightarrow> state \<Rightarrow> call list" where
  "reselect_calls p st =
     (case (queue (asyncs st p), fd (asyncs st p)) of
        (Some q, Some f) \<Rightarrow> [Fd_reselect_async f q]
      | _ \<Rightarrow> [])"

section \<open>Properties\<close>

subsection \<open>Termination of the cancel loop\<close>

lemma terminated_async_terminate:
  "terminated (asyncs (async_terminate p s st) q) \<longleftrightarrow> q = p \<or> terminated (asyncs st q)"
  by (simp add: async_terminate_def Let_def call_def upd_async_def upd_iosb_def
      async_reselect_def split: option.splits)

lemma process_asyncs_async_terminate:
  "process_asyncs (async_terminate p s st) = process_asyncs st"
  by (simp add: async_terminate_def Let_def call_def upd_async_def upd_iosb_def
      async_reselect_def split: option.splits)

lemma fd_cancel_async_Inr:
  "fd_cancel_async fo p st = Inr st1 \<longleftrightarrow>
     (\<exists>f. fo = Some f \<and> st1 = async_terminate p STATUS_CANCELLED (call (Fd_cancel_async f p) st))"
  by (auto simp: fd_cancel_async_def split: option.splits)

lemma terminated_fd_cancel_async:
  "fd_cancel_async fo p st = Inr st1 \<Longrightarrow>
   terminated (asyncs st1 q) \<longleftrightarrow> q = p \<or> terminated (asyncs st q)"
  by (auto simp: fd_cancel_async_Inr terminated_async_terminate call_def)

lemma process_asyncs_fd_cancel_async:
  "fd_cancel_async fo p st = Inr st1 \<Longrightarrow> process_asyncs st1 = process_asyncs st"
  by (auto simp: fd_cancel_async_Inr process_asyncs_async_terminate call_def)

lemma cancel_scan_Some:
  "cancel_scan st obj thr cookie ps = Inr (Some p) \<Longrightarrow>
   p \<in> set ps \<and> \<not> terminated (asyncs st p) \<and> cancel_match st obj thr cookie p = Inr True"
  by (induction ps) (auto split: if_splits sum.splits)

lemma length_filter_less:
  assumes "x \<in> set xs" and "P x" and "\<not> Q x" and "\<And>y. Q y \<Longrightarrow> P y"
  shows "length (filter Q xs) < length (filter P xs)"
  using assms(1)
proof (induction xs)
  case Nil
  then show ?case by simp
next
  case (Cons y ys)
  have le: "length (filter Q ys) \<le> length (filter P ys)"
    by (induction ys) (auto dest: assms(4))
  show ?case
  proof (cases "x = y")
    case True
    with le assms(2,3) show ?thesis by simp
  next
    case False
    with Cons have "length (filter Q ys) < length (filter P ys)" by simp
    then show ?thesis by (auto dest: assms(4))
  qed
qed

termination cancel_async_from
proof (relation "measure (\<lambda>(process, obj, thr, cookie, woken, st).
         length (filter (\<lambda>p. \<not> terminated (asyncs st p)) (process_asyncs st process)))")
  show "wf (measure (\<lambda>(process, obj, thr, cookie, woken, st).
         length (filter (\<lambda>p. \<not> terminated (asyncs st p)) (process_asyncs st process))))"
    by simp
next
  fix process :: ptr and obj thr :: "ptr option" and cookie :: client_ptr_t
    and woken :: "32 word" and st st1 :: state and x :: "ptr option" and p :: ptr
  assume "cancel_scan st obj thr cookie (process_asyncs st process) = Inr x"
    and "x = Some p"
    and c: "fd_cancel_async (fd (asyncs st p)) p st = Inr st1"
  then have f: "cancel_scan st obj thr cookie (process_asyncs st process) = Inr (Some p)"
    by simp
  have mem: "p \<in> set (process_asyncs st process)" and live: "\<not> terminated (asyncs st p)"
    using cancel_scan_Some [OF f] by simp_all
  have "length (filter (\<lambda>q. \<not> terminated (asyncs st1 q)) (process_asyncs st process))
        < length (filter (\<lambda>q. \<not> terminated (asyncs st q)) (process_asyncs st process))"
    by (rule length_filter_less [where x = p])
       (simp_all add: mem live terminated_fd_cancel_async [OF c])
  then show "((process, obj, thr, cookie, woken + 1, st1),
              (process, obj, thr, cookie, woken, st))
             \<in> measure (\<lambda>(process, obj, thr, cookie, woken, st).
                 length (filter (\<lambda>p. \<not> terminated (asyncs st p)) (process_asyncs st process)))"
    by (simp add: process_asyncs_fd_cancel_async [OF c])
qed

declare cancel_async_from.simps [simp del]

subsection \<open>async_terminate\<close>

lemma async_terminate_terminated:
  "terminated (asyncs st p) \<Longrightarrow> async_terminate p s st = st"
  by (simp add: async_terminate_def)

text \<open>
  C3: async_terminate is idempotent. A second call, with any status, returns the state
  the first call produced: the same flags, iosb, queues and trace of collaborator calls,
  so it changes nothing and queues no APC.
\<close>

theorem async_terminate_idempotent:
  "async_terminate p s' (async_terminate p s st) = async_terminate p s st"
  by (rule async_terminate_terminated) (simp add: terminated_async_terminate)

theorem async_terminate_idempotent_witness:
  "async_terminate 8 STATUS_CANCELLED (async_terminate 8 STATUS_ALERTED ex_state)
     = async_terminate 8 STATUS_ALERTED ex_state \<and>
   calls (async_terminate 8 STATUS_CANCELLED (async_terminate 8 STATUS_ALERTED ex_state))
     = [Grab_async 8,
        Thread_queue_apc (Some 4) 3 (Some 8) (APC_ASYNC_IO 0x1000 0x2000 STATUS_ALERTED),
        Release_async 8]"
  using async_terminate_idempotent [of 8 STATUS_CANCELLED STATUS_ALERTED ex_state]
  by (simp add: async_terminate_def ex_state_def ex_async_def ex_iosb_def Let_def call_def
      upd_async_def upd_iosb_def async_reselect_def apc_status_def)

lemma calls_async_reselect: "calls (async_reselect p st) = calls st @ reselect_calls p st"
  by (simp add: async_reselect_def reselect_calls_def call_def split: option.splits)

lemma calls_async_terminate:
  assumes "\<not> terminated (asyncs st p)"
  shows "calls (async_terminate p s st) =
           calls st @ [Grab_async p] @
           (if direct_result (asyncs st p) then [] else [terminate_apc p s st]) @
           reselect_calls p st @ [Release_async p]"
  using assms
  by (simp add: async_terminate_def Let_def call_def upd_async_def upd_iosb_def
      async_reselect_def reselect_calls_def terminate_apc_def apc_status_def split: option.splits)

text \<open>
  C4: on an async that is not terminated, async_terminate queues, when \<open>direct_result\<close>
  is 0, exactly one APC: an \<open>APC_ASYNC_IO\<close> to the owning thread, whose status is ALERTED
  when the iosb exists and has a non-zero result or an output buffer, and the given status
  otherwise. When \<open>direct_result\<close> is 1 it queues none.
\<close>

theorem async_terminate_apc:
  assumes "\<not> terminated (asyncs st p)"
  shows "apc_calls (async_terminate p s st) =
           apc_calls st @
           (if direct_result (asyncs st p) then []
            else [Thread_queue_apc (Some (thread_process st (thread (asyncs st p))))
                    (thread (asyncs st p)) (Some p)
                    (APC_ASYNC_IO (data_user (data (asyncs st p)))
                       (data_iosb (data (asyncs st p)))
                       (case iosb (asyncs st p) of
                          None \<Rightarrow> s
                        | Some b \<Rightarrow>
                            if result (iosbs st b) \<noteq> 0 \<or> out_data (iosbs st b) \<noteq> None
                            then STATUS_ALERTED else s))])"
proof -
  have "filter is_apc (reselect_calls p st) = []"
    by (simp add: reselect_calls_def is_apc_def split: option.splits)
  then show ?thesis
    using assms
    by (simp add: calls_async_terminate apc_calls_def is_apc_def terminate_apc_def)
qed

theorem async_terminate_apc_witness:
  "\<not> terminated (asyncs ex_state 8) \<and>
   apc_calls (async_terminate 8 STATUS_CANCELLED ex_state) =
     [Thread_queue_apc (Some 4) 3 (Some 8) (APC_ASYNC_IO 0x1000 0x2000 STATUS_CANCELLED)] \<and>
   apc_calls (async_terminate 8 STATUS_CANCELLED
                (upd_iosb 2 (\<lambda>x. x\<lparr>result := 42\<rparr>) ex_state)) =
     [Thread_queue_apc (Some 4) 3 (Some 8) (APC_ASYNC_IO 0x1000 0x2000 STATUS_ALERTED)] \<and>
   apc_calls (async_terminate 8 STATUS_CANCELLED
                (upd_async 8 (\<lambda>a. a\<lparr>direct_result := True\<rparr>) ex_state)) = []"
  using async_terminate_apc [of ex_state 8 STATUS_CANCELLED]
    async_terminate_apc [of "upd_iosb 2 (\<lambda>x. x\<lparr>result := 42\<rparr>) ex_state" 8 STATUS_CANCELLED]
    async_terminate_apc [of "upd_async 8 (\<lambda>a. a\<lparr>direct_result := True\<rparr>) ex_state" 8
      STATUS_CANCELLED]
  by (simp add: ex_state_def ex_async_def ex_iosb_def upd_iosb_def upd_async_def apc_calls_def)

lemma asyncs_async_reselect [simp]: "asyncs (async_reselect p st) = asyncs st"
  by (simp add: async_reselect_def call_def split: option.splits)

lemma asyncs_async_terminate_live:
  "\<not> terminated (asyncs st p) \<Longrightarrow>
   asyncs (async_terminate p s st) =
     (asyncs st)(p := (asyncs st p)\<lparr>terminated := True,
                                   alerted := (s = STATUS_ALERTED \<or> alerted (asyncs st p))\<rparr>)"
  by (cases "iosb (asyncs st p)")
     (simp_all add: async_terminate_def Let_def call_def upd_async_def upd_iosb_def)

lemma queues_async_terminate: "queues (async_terminate p s st) = queues st"
  by (simp add: async_terminate_def Let_def call_def upd_async_def upd_iosb_def
      async_reselect_def split: option.splits)

subsection \<open>async_set_result\<close>

text \<open>
  C10: async_set_result called on an object whose operations table is not that of an
  async returns at once and leaves the state as it is; the assertion that the async is
  terminated is only reached, and can only fail, for an object with the async table.
\<close>

theorem async_set_result_other_object:
  "(ops (asyncs st obj) \<noteq> Async_ops \<longrightarrow> async_set_result obj s tot st = Inr st) \<and>
   (async_set_result obj s tot st = Inl Assert_failed \<longrightarrow>
      ops (asyncs st obj) = Async_ops \<and> \<not> terminated (asyncs st obj))"
  by (simp add: async_set_result_def)

theorem async_set_result_other_object_witness:
  "ops (asyncs ex_state 5) \<noteq> Async_ops \<and>
   async_set_result 5 STATUS_PENDING 0 ex_state = Inr ex_state \<and>
   async_set_result 8 STATUS_PENDING 0 ex_state = Inl Assert_failed \<and>
   ops (asyncs ex_state 8) = Async_ops \<and> \<not> terminated (asyncs ex_state 8)"
  using async_set_result_other_object [of ex_state 5 STATUS_PENDING 0]
    async_set_result_other_object [of ex_state 8 STATUS_PENDING 0]
  by (simp add: ex_state_def ex_async_def async_set_result_def)

text \<open>
  C5: async_set_result with status PENDING on an alerted (hence terminated) async clears
  \<open>terminated\<close> and \<open>alerted\<close> and changes nothing else of the async (same iosb pointer,
  same queue), of the iosbs, of the queues or of the error; the only collaborator call
  is the reselect, so none of the fan-out runs. After an ALERTED async_terminate of a live
  async this gives back the async as it was before the termination.
\<close>

theorem async_set_result_restart:
  "(ops (asyncs st p) = Async_ops \<and> terminated (asyncs st p) \<and> alerted (asyncs st p) \<longrightarrow>
      async_set_result p STATUS_PENDING tot st =
        Inr (st\<lparr>asyncs := (asyncs st)(p := (asyncs st p)\<lparr>terminated := False, alerted := False\<rparr>),
                calls := calls st @ reselect_calls p st\<rparr>)) \<and>
   (ops (asyncs st p) = Async_ops \<and> \<not> terminated (asyncs st p) \<and> \<not> alerted (asyncs st p) \<longrightarrow>
      (\<exists>st'. async_set_result p STATUS_PENDING tot (async_terminate p STATUS_ALERTED st) = Inr st' \<and>
             asyncs st' = asyncs st \<and> queues st' = queues st \<and>
             process_asyncs st' = process_asyncs st))"
proof (intro conjI impI)
  assume "ops (asyncs st p) = Async_ops \<and> terminated (asyncs st p) \<and> alerted (asyncs st p)"
  then show "async_set_result p STATUS_PENDING tot st =
        Inr (st\<lparr>asyncs := (asyncs st)(p := (asyncs st p)\<lparr>terminated := False, alerted := False\<rparr>),
                calls := calls st @ reselect_calls p st\<rparr>)"
    by (simp add: async_set_result_def async_reselect_def reselect_calls_def upd_async_def
        call_def split: option.splits)
next
  assume a: "ops (asyncs st p) = Async_ops \<and> \<not> terminated (asyncs st p) \<and> \<not> alerted (asyncs st p)"
  let ?st1 = "async_terminate p STATUS_ALERTED st"
  have h: "asyncs ?st1 = (asyncs st)(p := (asyncs st p)\<lparr>terminated := True, alerted := True\<rparr>)"
    using a by (simp add: asyncs_async_terminate_live)
  have restore: "(asyncs st)(p := (asyncs st p)\<lparr>terminated := False, alerted := False\<rparr>) = asyncs st"
    using a by (simp add: fun_eq_iff)
  show "\<exists>st'. async_set_result p STATUS_PENDING tot ?st1 = Inr st' \<and>
             asyncs st' = asyncs st \<and> queues st' = queues st \<and>
             process_asyncs st' = process_asyncs st"
    using a h
    by (simp add: async_set_result_def async_reselect_def upd_async_def call_def restore
        queues_async_terminate process_asyncs_async_terminate split: option.splits)
qed

theorem async_set_result_restart_witness:
  "ops (asyncs (async_terminate 8 STATUS_ALERTED (queue_async 5 8 ex_state)) 8) = Async_ops \<and>
   terminated (asyncs (async_terminate 8 STATUS_ALERTED (queue_async 5 8 ex_state)) 8) \<and>
   alerted (asyncs (async_terminate 8 STATUS_ALERTED (queue_async 5 8 ex_state)) 8) \<and>
   \<not> terminated (asyncs (queue_async 5 8 ex_state) 8) \<and>
   \<not> alerted (asyncs (queue_async 5 8 ex_state) 8) \<and>
   (\<exists>st'. async_set_result 8 STATUS_PENDING 0
            (async_terminate 8 STATUS_ALERTED (queue_async 5 8 ex_state)) = Inr st' \<and>
          asyncs st' = asyncs (queue_async 5 8 ex_state) \<and>
          queues st' 5 = [8] \<and>
          calls st' = calls (async_terminate 8 STATUS_ALERTED (queue_async 5 8 ex_state))
                      @ [Fd_reselect_async 7 5])"
proof -
  let ?q = "queue_async 5 8 ex_state"
  let ?a = "async_terminate 8 STATUS_ALERTED ?q"
  have q: "asyncs ?q 8 = ex_async\<lparr>queue := Some 5\<rparr>" "queues ?q 5 = [8]"
    by (simp_all add: queue_async_def ex_state_def Let_def call_def upd_async_def)
  have live: "\<not> terminated (asyncs ?q 8)" "\<not> alerted (asyncs ?q 8)" "ops (asyncs ?q 8) = Async_ops"
    by (simp_all add: q ex_async_def)
  have a: "asyncs ?a = (asyncs ?q)(8 := (asyncs ?q 8)\<lparr>terminated := True, alerted := True\<rparr>)"
    using live by (simp add: asyncs_async_terminate_live)
  have r: "reselect_calls 8 ?a = [Fd_reselect_async 7 5]"
    by (simp add: reselect_calls_def a q ex_async_def)
  have restore: "(asyncs ?a)(8 := (asyncs ?a 8)\<lparr>terminated := False, alerted := False\<rparr>) = asyncs ?q"
    using live by (simp add: a fun_eq_iff)
  from async_set_result_restart [of ?a 8 0] async_set_result_restart [of ?q 8 0] live
  show ?thesis
    by (simp add: a r restore queues_async_terminate q)
qed

subsection \<open>async_wake_up\<close>

text \<open>
  C7: async_wake_up terminates the asyncs of the queue with the given status, head first;
  when the status is ALERTED it terminates the head only.
\<close>

theorem async_wake_up_fifo:
  "async_wake_up q s st =
     (if s = STATUS_ALERTED
      then (case queues st q of [] \<Rightarrow> st | p # _ \<Rightarrow> async_terminate p s st)
      else fold (\<lambda>p. async_terminate p s) (queues st q) st)"
proof -
  have "s \<noteq> STATUS_ALERTED \<Longrightarrow>
        async_wake_up_loop ps s st' = fold (\<lambda>p. async_terminate p s) ps st'" for ps st'
    by (induction ps arbitrary: st') simp_all
  then show ?thesis
    by (cases "queues st q") (simp_all add: async_wake_up_def)
qed

theorem async_wake_up_fifo_witness:
  "async_wake_up 5 STATUS_CANCELLED (ex_state\<lparr>queues := (\<lambda>_. [8, 6])\<rparr>) =
     async_terminate 6 STATUS_CANCELLED
       (async_terminate 8 STATUS_CANCELLED (ex_state\<lparr>queues := (\<lambda>_. [8, 6])\<rparr>)) \<and>
   async_wake_up 5 STATUS_ALERTED (ex_state\<lparr>queues := (\<lambda>_. [8, 6])\<rparr>) =
     async_terminate 8 STATUS_ALERTED (ex_state\<lparr>queues := (\<lambda>_. [8, 6])\<rparr>)"
  using async_wake_up_fifo [of 5 STATUS_CANCELLED "ex_state\<lparr>queues := (\<lambda>_. [8, 6])\<rparr>"]
    async_wake_up_fifo [of 5 STATUS_ALERTED "ex_state\<lparr>queues := (\<lambda>_. [8, 6])\<rparr>"]
  by (simp add: STATUS_CANCELLED_def STATUS_ALERTED_def)


subsection \<open>async_handoff\<close>

lemma iosb_async_terminate [simp]:
  "iosb (asyncs (async_terminate p s st) q) = iosb (asyncs st q)"
  by (cases "terminated (asyncs st p)")
     (simp_all add: async_terminate_terminated asyncs_async_terminate_live)

lemma async_handoff_status_iosb:
  "async_handoff_status p st = Inr st1 \<Longrightarrow> iosb (asyncs st1 p) = iosb (asyncs st p)"
  by (auto simp: async_handoff_status_def call_def upd_iosb_def
      split: if_splits option.splits)

lemma async_handoff_status_fault:
  "async_handoff_status p st = Inl f \<Longrightarrow> iosb (asyncs st p) = None"
  by (auto simp: async_handoff_status_def split: if_splits option.splits)

lemma async_handoff_finish_fault:
  "async_handoff_finish p res fb st = Inl f \<Longrightarrow> iosb (asyncs st p) = None"
  by (auto simp: async_handoff_finish_def Let_def split: if_splits option.splits)

lemma async_handoff_finish_error:
  "async_handoff_finish p res fb st = Inr (h, r, st') \<Longrightarrow>
   (\<exists>b. iosb (asyncs st p) = Some b \<and> last_error st' = status (iosbs st' b)) \<and>
   h = wait_handle (asyncs st' p)"
  by (auto simp: async_handoff_finish_def Let_def set_error_def upd_async_def call_def
      split: if_splits option.splits)

lemma nt_error_invalid_parameter: "NT_ERROR STATUS_INVALID_PARAMETER"
  by (simp add: NT_ERROR_def STATUS_INVALID_PARAMETER_def)

text \<open>
  C6: async_handoff applies its rules in order. With \<open>unknown_status\<close> it sets the error
  to PENDING and returns the wait handle. Otherwise, with \<open>pending\<close> 0 and an NT error as
  the current error, it closes the wait handle, zeroes the field and returns 0. On every
  other path it either stops at a null iosb or reaches the end, and there the error is
  the status of the iosb and the answer is the wait handle.
\<close>

theorem async_handoff_rules:
  "(unknown_status (asyncs st p) \<longrightarrow>
      async_handoff p res fb st =
        Inr (wait_handle (asyncs st p), None, st\<lparr>last_error := STATUS_PENDING\<rparr>)) \<and>
   (\<not> unknown_status (asyncs st p) \<and> \<not> pending (asyncs st p) \<and> NT_ERROR (last_error st) \<longrightarrow>
      async_handoff p res fb st =
        Inr (0, None,
             st\<lparr>asyncs := (asyncs st)(p := (asyncs st p)\<lparr>wait_handle := 0\<rparr>),
                calls := calls st @ [Close_handle (thread_process st (thread (asyncs st p)))
                                       (wait_handle (asyncs st p))]\<rparr>)) \<and>
   (\<not> unknown_status (asyncs st p) \<and> \<not> (\<not> pending (asyncs st p) \<and> NT_ERROR (last_error st)) \<longrightarrow>
      (case async_handoff p res fb st of
         Inl f \<Rightarrow> iosb (asyncs st p) = None
       | Inr (h, r, st') \<Rightarrow>
           (\<exists>b. iosb (asyncs st p) = Some b \<and> last_error st' = status (iosbs st' b)) \<and>
           h = wait_handle (asyncs st' p)))"
proof (intro conjI impI)
  assume "unknown_status (asyncs st p)"
  then show "async_handoff p res fb st =
        Inr (wait_handle (asyncs st p), None, st\<lparr>last_error := STATUS_PENDING\<rparr>)"
    by (simp add: async_handoff_def set_error_def)
next
  assume "\<not> unknown_status (asyncs st p) \<and> \<not> pending (asyncs st p) \<and> NT_ERROR (last_error st)"
  then show "async_handoff p res fb st =
        Inr (0, None,
             st\<lparr>asyncs := (asyncs st)(p := (asyncs st p)\<lparr>wait_handle := 0\<rparr>),
                calls := calls st @ [Close_handle (thread_process st (thread (asyncs st p)))
                                       (wait_handle (asyncs st p))]\<rparr>)"
    by (simp add: async_handoff_def upd_async_def call_def)
next
  assume a: "\<not> unknown_status (asyncs st p) \<and> \<not> (\<not> pending (asyncs st p) \<and> NT_ERROR (last_error st))"
  then have eq: "async_handoff p res fb st =
      (case async_handoff_status p st of
         Inl e \<Rightarrow> Inl e
       | Inr st1 \<Rightarrow> async_handoff_finish p res fb st1)"
    by (auto simp: async_handoff_def)
  show "case async_handoff p res fb st of
         Inl f \<Rightarrow> iosb (asyncs st p) = None
       | Inr (h, r, st') \<Rightarrow>
           (\<exists>b. iosb (asyncs st p) = Some b \<and> last_error st' = status (iosbs st' b)) \<and>
           h = wait_handle (asyncs st' p)"
  proof (cases "async_handoff_status p st")
    case (Inl e)
    then show ?thesis
      by (simp add: eq async_handoff_status_fault)
  next
    case (Inr st1)
    note i = async_handoff_status_iosb [OF Inr]
    show ?thesis
    proof (cases "async_handoff_finish p res fb st1")
      case (Inl e)
      with Inr i show ?thesis
        by (simp add: eq async_handoff_finish_fault [OF Inl, simplified i])
    next
      case (Inr x)
      obtain h r st' where x: "x = (h, r, st')" by (cases x)
      from async_handoff_finish_error [OF Inr [unfolded x]] \<open>async_handoff_status p st = Inr st1\<close> i Inr
      show ?thesis
        by (simp add: eq x)
    qed
  qed
qed

theorem async_handoff_rules_witness:
  "unknown_status (asyncs (upd_async 8 (\<lambda>a. a\<lparr>unknown_status := True\<rparr>) ex_state) 8) \<and>
   async_handoff 8 True False (upd_async 8 (\<lambda>a. a\<lparr>unknown_status := True\<rparr>) ex_state) =
     Inr (0x24, None,
          (upd_async 8 (\<lambda>a. a\<lparr>unknown_status := True\<rparr>) ex_state)\<lparr>last_error := STATUS_PENDING\<rparr>) \<and>
   \<not> pending (asyncs (upd_async 8 (\<lambda>a. a\<lparr>pending := False\<rparr>)
                        (ex_state\<lparr>last_error := STATUS_INVALID_PARAMETER\<rparr>)) 8) \<and>
   NT_ERROR STATUS_INVALID_PARAMETER \<and>
   (\<exists>st'. async_handoff 8 True False
            (upd_async 8 (\<lambda>a. a\<lparr>pending := False\<rparr>)
               (ex_state\<lparr>last_error := STATUS_INVALID_PARAMETER\<rparr>)) = Inr (0, None, st') \<and>
          wait_handle (asyncs st' 8) = 0 \<and> calls st' = [Close_handle 4 0x24]) \<and>
   (case async_handoff 8 True False ex_state of
      Inl f \<Rightarrow> False
    | Inr (h, r, st') \<Rightarrow> last_error st' = status (iosbs st' 2) \<and> h = wait_handle (asyncs st' 8))"
  using async_handoff_rules [of "upd_async 8 (\<lambda>a. a\<lparr>unknown_status := True\<rparr>) ex_state" 8 True False]
    async_handoff_rules [of "upd_async 8 (\<lambda>a. a\<lparr>pending := False\<rparr>)
               (ex_state\<lparr>last_error := STATUS_INVALID_PARAMETER\<rparr>)" 8 True False]
    async_handoff_rules [of ex_state 8 True False]
    nt_error_invalid_parameter
  by (auto simp: ex_state_def ex_async_def upd_async_def split: sum.splits)


subsection \<open>The get_async_result request\<close>

text \<open>
  C9 says that whenever some async of the process has the given user pointer, the handler
  answers with the iosb of the first one. The first match may hold no iosb (create_async
  accepts a null iosb); the handler then sets INVALID_PARAMETER, as when nothing matches.
\<close>

theorem req_get_async_result_counterexample:
  "find (\<lambda>p. data_user (data (asyncs (upd_async 8 (\<lambda>a. a\<lparr>iosb := None\<rparr>) ex_state) p)) = 0x1000)
        (process_asyncs (upd_async 8 (\<lambda>a. a\<lparr>iosb := None\<rparr>) ex_state) 4) = Some 8 \<and>
   req_get_async_result 0x1000 (upd_async 8 (\<lambda>a. a\<lparr>iosb := None\<rparr>) ex_state) =
     (upd_async 8 (\<lambda>a. a\<lparr>iosb := None\<rparr>) ex_state)\<lparr>last_error := STATUS_INVALID_PARAMETER\<rparr>"
  by (simp add: req_get_async_result_def ex_state_def ex_async_def upd_async_def set_error_def)

text \<open>
  C9, amended: the handler takes the first async of the process whose \<open>data.user\<close> is
  \<open>user_arg\<close>. If there is none, or if that async holds no iosb, it sets the error to
  INVALID_PARAMETER and does nothing else. Otherwise it writes the iosb's result to
  \<open>reply->size\<close> and sets the error to the iosb's status; before that, when the iosb has an
  output buffer and the smaller of \<open>out_size\<close> and the reply's maximal size is not zero,
  it hands the buffer with that size to the reply and nulls \<open>out_data\<close> (with size zero
  the buffer stays on the iosb).
\<close>

theorem req_get_async_result_cases:
  "req_get_async_result user_arg st =
     (case find (\<lambda>p. data_user (data (asyncs st p)) = user_arg)
                (process_asyncs st (thread_process st (current st))) of
        None \<Rightarrow> st\<lparr>last_error := STATUS_INVALID_PARAMETER\<rparr>
      | Some p \<Rightarrow>
          (case iosb (asyncs st p) of
             None \<Rightarrow> st\<lparr>last_error := STATUS_INVALID_PARAMETER\<rparr>
           | Some b \<Rightarrow>
               (case out_data (iosbs st b) of
                  None \<Rightarrow> st\<lparr>reply_size := result (iosbs st b),
                              last_error := status (iosbs st b)\<rparr>
                | Some d \<Rightarrow>
                    if min (out_size (iosbs st b)) (get_reply_max_size st) = 0
                    then st\<lparr>reply_size := result (iosbs st b),
                            last_error := status (iosbs st b)\<rparr>
                    else st\<lparr>iosbs := (iosbs st)(b := (iosbs st b)\<lparr>out_data := None\<rparr>),
                            calls := calls st @
                              [Set_reply_data_ptr d
                                 (min (out_size (iosbs st b)) (get_reply_max_size st))],
                            reply_size := result (iosbs st b),
                            last_error := status (iosbs st b)\<rparr>)))"
  by (simp add: req_get_async_result_def Let_def set_error_def upd_iosb_def call_def
      split: option.splits)

theorem req_get_async_result_cases_witness:
  "req_get_async_result 0x1000
     (upd_iosb 2 (\<lambda>x. x\<lparr>result := 42, out_size := 32, out_data := Some [1, 2, 3]\<rparr>) ex_state) =
   (upd_iosb 2 (\<lambda>x. x\<lparr>result := 42, out_size := 32, out_data := None\<rparr>) ex_state)
     \<lparr>calls := [Set_reply_data_ptr [1, 2, 3] 16], reply_size := 42,
      last_error := STATUS_PENDING\<rparr>"
  using req_get_async_result_cases
    [of "0x1000" "upd_iosb 2 (\<lambda>x. x\<lparr>result := 42, out_size := 32, out_data := Some [1, 2, 3]\<rparr>) ex_state"]
  by (simp add: ex_state_def ex_async_def ex_iosb_def upd_iosb_def)

subsection \<open>What async_terminate leaves unchanged\<close>

lemma async_reselect_frame [simp]:
  "iosbs (async_reselect p st) = iosbs st"
  "queues (async_reselect p st) = queues st"
  "process_asyncs (async_reselect p st) = process_asyncs st"
  "last_error (async_reselect p st) = last_error st"
  "thread_process (async_reselect p st) = thread_process st"
  "get_fd_user (async_reselect p st) = get_fd_user st"
  "is_fd_overlapped (async_reselect p st) = is_fd_overlapped st"
  "fd_get_completion (async_reselect p st) = fd_get_completion st"
  "get_handle_obj (async_reselect p st) = get_handle_obj st"
  "get_reply_max_size (async_reselect p st) = get_reply_max_size st"
  "current (async_reselect p st) = current st"
  "reply_size (async_reselect p st) = reply_size st"
  by (simp_all add: async_reselect_def call_def split: option.splits)

lemma async_terminate_frame [simp]:
  "queues (async_terminate p s st) = queues st"
  "process_asyncs (async_terminate p s st) = process_asyncs st"
  "last_error (async_terminate p s st) = last_error st"
  "thread_process (async_terminate p s st) = thread_process st"
  "get_fd_user (async_terminate p s st) = get_fd_user st"
  "is_fd_overlapped (async_terminate p s st) = is_fd_overlapped st"
  "fd_get_completion (async_terminate p s st) = fd_get_completion st"
  "get_handle_obj (async_terminate p s st) = get_handle_obj st"
  "get_reply_max_size (async_terminate p s st) = get_reply_max_size st"
  "current (async_terminate p s st) = current st"
  "reply_size (async_terminate p s st) = reply_size st"
  by (cases "iosb (asyncs st p)";
      simp add: async_terminate_def Let_def call_def upd_async_def upd_iosb_def)+

lemma iosbs_async_terminate_live:
  "\<not> terminated (asyncs st p) \<Longrightarrow>
   iosbs (async_terminate p s st) =
     (case iosb (asyncs st p) of
        None \<Rightarrow> iosbs st
      | Some b \<Rightarrow>
          if status (iosbs st b) = STATUS_PENDING
          then (iosbs st)(b := (iosbs st b)\<lparr>status := s\<rparr>) else iosbs st)"
  by (cases "iosb (asyncs st p)")
     (simp_all add: async_terminate_def Let_def call_def upd_async_def upd_iosb_def)

lemma asyncs_async_terminate_other:
  "q \<noteq> p \<Longrightarrow> asyncs (async_terminate p s st) q = asyncs st q"
  by (cases "terminated (asyncs st p)")
     (simp_all add: async_terminate_terminated asyncs_async_terminate_live)

lemma fd_async_terminate [simp]:
  "fd (asyncs (async_terminate p s st) q) = fd (asyncs st q)"
  by (cases "terminated (asyncs st p)")
     (simp_all add: async_terminate_terminated asyncs_async_terminate_live)

subsection \<open>The cancel_async request\<close>


lemma cancel_one_frame [simp]:
  "process_asyncs (cancel_one p st) = process_asyncs st"
  "get_fd_user (cancel_one p st) = get_fd_user st"
  "last_error (cancel_one p st) = last_error st"
  "fd (asyncs (cancel_one p st) q) = fd (asyncs st q)"
  "terminated (asyncs (cancel_one p st) q) \<longleftrightarrow>
     (q = p \<and> fd (asyncs st p) \<noteq> None) \<or> terminated (asyncs st q)"
  by (auto simp: cancel_one_def call_def terminated_async_terminate split: option.splits)











lemma cancel_calls_async_terminate [simp]:
  "cancel_calls (async_terminate p s st) = cancel_calls st"
proof (cases "terminated (asyncs st p)")
  case True
  then show ?thesis by (simp add: async_terminate_terminated)
next
  case False
  have "filter is_cancel (reselect_calls p st) = []"
    by (simp add: reselect_calls_def is_cancel_def split: option.splits)
  with False show ?thesis
    by (simp add: cancel_calls_def calls_async_terminate is_cancel_def terminate_apc_def)
qed

lemma cancel_calls_cancel_one [simp]:
  "cancel_calls (cancel_one p st) = cancel_calls st @ cancel_call st p"
proof (cases "fd (asyncs st p)")
  case None
  then show ?thesis by (simp add: cancel_one_def cancel_call_def)
next
  case (Some f)
  have "cancel_calls (call (Fd_cancel_async f p) st) = cancel_calls st @ [Fd_cancel_async f p]"
    by (simp add: cancel_calls_def call_def is_cancel_def)
  with Some show ?thesis by (simp add: cancel_one_def cancel_call_def)
qed

lemma cancel_call_cancel_one [simp]: "cancel_call (cancel_one p st) q = cancel_call st q"
  by (simp add: cancel_call_def)









subsection \<open>What each function does to the fields the invariants read\<close>

lemma call_frame [simp]:
  "asyncs (call c st) = asyncs st"
  "iosbs (call c st) = iosbs st"
  "queues (call c st) = queues st"
  "last_error (call c st) = last_error st"
  "thread_process (call c st) = thread_process st"
  "fd_get_completion (call c st) = fd_get_completion st"
  "is_fd_overlapped (call c st) = is_fd_overlapped st"
  by (simp_all add: call_def)

lemma set_error_frame [simp]:
  "asyncs (set_error e st) = asyncs st"
  "iosbs (set_error e st) = iosbs st"
  by (simp_all add: set_error_def)

lemma upd_async_frame [simp]:
  "asyncs (upd_async p g st) q = (if q = p then g (asyncs st p) else asyncs st q)"
  "iosbs (upd_async p g st) = iosbs st"
  "queues (upd_async p g st) = queues st"
  "last_error (upd_async p g st) = last_error st"
  "thread_process (upd_async p g st) = thread_process st"
  "fd_get_completion (upd_async p g st) = fd_get_completion st"
  "is_fd_overlapped (upd_async p g st) = is_fd_overlapped st"
  by (simp_all add: upd_async_def)

lemma upd_iosb_frame [simp]:
  "asyncs (upd_iosb b g st) = asyncs st"
  "iosbs (upd_iosb b g st) c = (if c = b then g (iosbs st b) else iosbs st c)"
  "last_error (upd_iosb b g st) = last_error st"
  by (simp_all add: upd_iosb_def)

lemma add_async_completion_frame [simp]:
  "core (asyncs (add_async_completion p c s i st) q) = core (asyncs st q)"
  "iosbs (add_async_completion p c s i st) = iosbs st"
  by (simp_all add: add_async_completion_def Let_def core_def split: option.splits)

lemma async_reselect_core [simp]:
  "iosbs (async_reselect p st) = iosbs st"
  by (simp add: async_reselect_def split: option.splits)

lemma async_set_result_final_core:
  "core (asyncs (async_set_result_final p s tot st) q) =
     (if q = p
      then (None, (if queue (asyncs st p) = None then fd (asyncs st p) else None), True,
            alerted (asyncs st p), iosb (asyncs st p))
      else core (asyncs st q))"
  "iosbs (async_set_result_final p s tot st) b =
     (if iosb (asyncs st p) = Some b then (iosbs st b)\<lparr>status := s\<rparr> else iosbs st b)"
proof -
  define st1 where "st1 = (case timeout (asyncs st p) of
                   Some t \<Rightarrow> call (Remove_timeout_user t) st | None \<Rightarrow> st)"
  define st2 where "st2 = upd_async p (\<lambda>a. a\<lparr>timeout := None, terminated := True\<rparr>) st1"
  define st3 where "st3 = (case iosb (asyncs st2 p) of
                   Some b \<Rightarrow> upd_iosb b (\<lambda>x. x\<lparr>status := s\<rparr>) st2 | None \<Rightarrow> st2)"
  define a3 where "a3 = asyncs st3 p"
  define st4 where "st4 = (if data_apc (data a3) \<noteq> 0 then
                   call (Thread_queue_apc None (thread a3) None
                           (APC_USER (data_apc (data a3)) (data_apc_context (data a3))
                                     (data_iosb (data a3)) 0)) st3
                 else if data_apc_context (data a3) \<noteq> 0 \<and>
                         (pending a3 \<or>
                          and (comp_flags a3) FILE_SKIP_COMPLETION_PORT_ON_SUCCESS = 0) then
                   add_async_completion p (data_apc_context (data a3)) s tot st3
                 else st3)"
  define st5 where "st5 = (case event (asyncs st4 p) of
                   Some e \<Rightarrow> call (Set_event e) st4
                 | None \<Rightarrow>
                     (case fd (asyncs st4 p) of
                        Some f \<Rightarrow> call (Set_fd_signaled (Some f) True) st4
                      | None \<Rightarrow> st4))"
  define st6 where "st6 = (if \<not> signaled (asyncs st5 p)
                 then call (Wake_up p 0) (upd_async p (\<lambda>a. a\<lparr>signaled := True\<rparr>) st5)
                 else st5)"
  define st7 where "st7 = (case completion_callback (asyncs st6 p) of
                   Some f \<Rightarrow>
                     call (Completion_callback f (completion_callback_private (asyncs st6 p))) st6
                 | None \<Rightarrow> st6)"
  define st8 where "st8 = upd_async p (\<lambda>a. a\<lparr>completion_callback := None\<rparr>) st7"
  define st9 where "st9 = async_reselect p st8"
  have fin: "async_set_result_final p s tot st =
      (case queue (asyncs st9 p) of
           Some q \<Rightarrow>
             call (Release_async p)
               (upd_async p (\<lambda>a. a\<lparr>queue := None\<rparr>)
                  ((upd_async p (\<lambda>a. a\<lparr>fd := None\<rparr>) st9)
                     \<lparr>queues := (\<lambda>x. removeAll p (queues st9 x))\<rparr>))
         | None \<Rightarrow> st9)"
    unfolding async_set_result_final_def Let_def st1_def st2_def st3_def a3_def st4_def
      st5_def st6_def st7_def st8_def st9_def
    by (rule refl)
  have c1: "core (asyncs st1 r) = core (asyncs st r)" "iosbs st1 = iosbs st" for r
    by (simp_all add: st1_def split: option.splits)
  have c2: "core (asyncs st2 r) =
      (if r = p then (queue (asyncs st p), fd (asyncs st p), True, alerted (asyncs st p),
                      iosb (asyncs st p))
       else core (asyncs st r))" "iosbs st2 = iosbs st" for r
    using c1(1) [of p] c1(1) [of r] c1(2) by (simp_all add: st2_def core_def)
  have c3: "core (asyncs st3 r) = core (asyncs st2 r)"
      "iosbs st3 b = (if iosb (asyncs st p) = Some b then (iosbs st b)\<lparr>status := s\<rparr> else iosbs st b)"
      for r
    using c2(1) [of p] c2(2) by (auto simp add: st3_def core_def split: option.splits)
  have c4: "core (asyncs st4 r) = core (asyncs st3 r)" "iosbs st4 = iosbs st3" for r
    by (simp_all add: st4_def)
  have c5: "core (asyncs st5 r) = core (asyncs st4 r)" "iosbs st5 = iosbs st4" for r
    by (simp_all add: st5_def split: option.splits)
  have c6: "core (asyncs st6 r) = core (asyncs st5 r)" "iosbs st6 = iosbs st5" for r
    by (simp_all add: st6_def core_def)
  have c7: "core (asyncs st7 r) = core (asyncs st6 r)" "iosbs st7 = iosbs st6" for r
    by (simp_all add: st7_def split: option.splits)
  have c8: "core (asyncs st8 r) = core (asyncs st7 r)" "iosbs st8 = iosbs st7" for r
    by (simp_all add: st8_def core_def)
  have c9: "core (asyncs st9 r) = core (asyncs st8 r)" "iosbs st9 = iosbs st8" for r
    by (simp_all add: st9_def)
  have all: "core (asyncs st9 r) =
      (if r = p then (queue (asyncs st p), fd (asyncs st p), True, alerted (asyncs st p),
                      iosb (asyncs st p))
       else core (asyncs st r))" for r
    by (simp only: c9 c8 c7 c6 c5 c4 c3 c2)
  have io: "iosbs st9 b =
      (if iosb (asyncs st p) = Some b then (iosbs st b)\<lparr>status := s\<rparr> else iosbs st b)"
    by (simp only: c9 c8 c7 c6 c5 c4 c3)
  show "core (asyncs (async_set_result_final p s tot st) q) =
     (if q = p
      then (None, (if queue (asyncs st p) = None then fd (asyncs st p) else None), True,
            alerted (asyncs st p), iosb (asyncs st p))
      else core (asyncs st q))"
    using all [of p] all [of q]
    by (cases "queue (asyncs st9 p)") (auto simp add: fin core_def)
  show "iosbs (async_set_result_final p s tot st) b =
     (if iosb (asyncs st p) = Some b then (iosbs st b)\<lparr>status := s\<rparr> else iosbs st b)"
    using io
    by (cases "queue (asyncs st9 p)") (simp_all add: fin upd_async_def)
qed

lemma async_terminate_core:
  "core (asyncs (async_terminate p s st) q) =
     (if q = p \<and> \<not> terminated (asyncs st p)
      then (queue (asyncs st p), fd (asyncs st p), True,
            s = STATUS_ALERTED \<or> alerted (asyncs st p), iosb (asyncs st p))
      else core (asyncs st q))"
  "status (iosbs (async_terminate p s st) b) =
     (if \<not> terminated (asyncs st p) \<and> iosb (asyncs st p) = Some b \<and>
         status (iosbs st b) = STATUS_PENDING
      then s else status (iosbs st b))"
proof -
  show "core (asyncs (async_terminate p s st) q) =
     (if q = p \<and> \<not> terminated (asyncs st p)
      then (queue (asyncs st p), fd (asyncs st p), True,
            s = STATUS_ALERTED \<or> alerted (asyncs st p), iosb (asyncs st p))
      else core (asyncs st q))"
    by (cases "terminated (asyncs st p)")
       (simp_all add: async_terminate_terminated asyncs_async_terminate_live core_def)
  show "status (iosbs (async_terminate p s st) b) =
     (if \<not> terminated (asyncs st p) \<and> iosb (asyncs st p) = Some b \<and>
         status (iosbs st b) = STATUS_PENDING
      then s else status (iosbs st b))"
    by (cases "terminated (asyncs st p)"; cases "iosb (asyncs st p)")
       (simp_all add: async_terminate_terminated iosbs_async_terminate_live)
qed

lemma inv_core:
  "queued_has_fd st \<longleftrightarrow>
     (\<forall>p. case core (asyncs st p) of (q, f, t, a, i) \<Rightarrow> q \<noteq> None \<longrightarrow> f \<noteq> None)"
  "alerted_is_terminated st \<longleftrightarrow>
     (\<forall>p. case core (asyncs st p) of (q, f, t, a, i) \<Rightarrow> a \<longrightarrow> t)"
  "terminated_not_pending st \<longleftrightarrow>
     (\<forall>p. case core (asyncs st p) of (q, f, t, a, i) \<Rightarrow>
        \<forall>b. i = Some b \<longrightarrow> t \<longrightarrow> status (iosbs st b) \<noteq> STATUS_PENDING)"
  by (simp_all add: queued_has_fd_def alerted_is_terminated_def terminated_not_pending_def
      core_def)

lemma async_terminate_inv:
  "queued_has_fd st \<Longrightarrow> queued_has_fd (async_terminate p s st)"
  "alerted_is_terminated st \<Longrightarrow> alerted_is_terminated (async_terminate p s st)"
  "s \<noteq> STATUS_PENDING \<Longrightarrow> terminated_not_pending st \<Longrightarrow>
     terminated_not_pending (async_terminate p s st)"
proof -
  show "queued_has_fd st \<Longrightarrow> queued_has_fd (async_terminate p s st)"
    unfolding inv_core by (simp only: async_terminate_core) (auto simp: core_def)
  show "alerted_is_terminated st \<Longrightarrow> alerted_is_terminated (async_terminate p s st)"
    unfolding inv_core by (simp only: async_terminate_core) (auto simp: core_def)
  show "s \<noteq> STATUS_PENDING \<Longrightarrow> terminated_not_pending st \<Longrightarrow>
     terminated_not_pending (async_terminate p s st)"
    unfolding inv_core by (simp only: async_terminate_core) (auto simp: core_def)
qed

lemma async_set_result_final_inv:
  "queued_has_fd st \<Longrightarrow> queued_has_fd (async_set_result_final p s tot st)"
  "alerted_is_terminated st \<Longrightarrow> alerted_is_terminated (async_set_result_final p s tot st)"
  "s \<noteq> STATUS_PENDING \<Longrightarrow> terminated_not_pending st \<Longrightarrow>
     terminated_not_pending (async_set_result_final p s tot st)"
proof -
  show "queued_has_fd st \<Longrightarrow> queued_has_fd (async_set_result_final p s tot st)"
    unfolding inv_core by (simp only: async_set_result_final_core) (auto simp: core_def)
  show "alerted_is_terminated st \<Longrightarrow> alerted_is_terminated (async_set_result_final p s tot st)"
    unfolding inv_core by (simp only: async_set_result_final_core) (auto simp: core_def)
  show "s \<noteq> STATUS_PENDING \<Longrightarrow> terminated_not_pending st \<Longrightarrow>
     terminated_not_pending (async_set_result_final p s tot st)"
    unfolding inv_core by (simp only: async_set_result_final_core) (auto simp: core_def)
qed

lemma same_core_inv:
  assumes "same_core st st'"
  shows "queued_has_fd st' = queued_has_fd st"
    "alerted_is_terminated st' = alerted_is_terminated st"
    "terminated_not_pending st' = terminated_not_pending st"
  using assms by (simp_all add: inv_core same_core_def)

lemma same_core_refl [simp]: "same_core st st"
  by (simp add: same_core_def)

lemma same_core_trans: "same_core st st1 \<Longrightarrow> same_core st1 st2 \<Longrightarrow> same_core st st2"
  by (simp add: same_core_def)

lemma same_core_call [simp]: "same_core st (call c st)"
  by (simp add: same_core_def)

lemma same_core_set_error [simp]: "same_core st (set_error e st)"
  by (simp add: same_core_def)

lemma same_core_upd_async:
  "core (g (asyncs st p)) = core (asyncs st p) \<Longrightarrow> same_core st (upd_async p g st)"
  by (simp add: same_core_def)

lemma same_core_upd_iosb:
  "status (g (iosbs st b)) = status (iosbs st b) \<Longrightarrow> same_core st (upd_iosb b g st)"
  by (simp add: same_core_def)

lemma same_core_async_reselect [simp]: "same_core st (async_reselect p st)"
  by (simp add: same_core_def)

lemma same_core_set_async_pending: "same_core st (set_async_pending p signal st)"
  by (simp add: set_async_pending_def Let_def same_core_def core_def)

lemma same_core_async_set_unknown_status: "same_core st (async_set_unknown_status p st)"
  by (simp add: async_set_unknown_status_def same_core_def core_def)

lemma same_core_req_get_async_result: "same_core st (req_get_async_result user_arg st)"
  by (simp add: req_get_async_result_def Let_def same_core_def split: option.splits)

lemma same_core_async_handoff_finish:
  "async_handoff_finish p res fb st = Inr (h, r, st') \<Longrightarrow> same_core st st'"
  by (auto simp: async_handoff_finish_def Let_def same_core_def core_def
      split: option.splits if_splits)

lemma async_timeout_inv:
  "queued_has_fd st \<Longrightarrow> queued_has_fd (async_timeout p st)"
  "alerted_is_terminated st \<Longrightarrow> alerted_is_terminated (async_timeout p st)"
  "timeout_status (asyncs st p) \<noteq> STATUS_PENDING \<Longrightarrow> terminated_not_pending st \<Longrightarrow>
     terminated_not_pending (async_timeout p st)"
proof -
  let ?st1 = "upd_async p (\<lambda>a. a\<lparr>timeout := None\<rparr>) st"
  have sc: "same_core st ?st1"
    by (rule same_core_upd_async) (simp add: core_def)
  have ts: "timeout_status (asyncs ?st1 p) = timeout_status (asyncs st p)"
    by simp
  show "queued_has_fd st \<Longrightarrow> queued_has_fd (async_timeout p st)"
    by (simp add: async_timeout_def Let_def async_terminate_inv(1) same_core_inv(1) [OF sc])
  show "alerted_is_terminated st \<Longrightarrow> alerted_is_terminated (async_timeout p st)"
    by (simp add: async_timeout_def Let_def async_terminate_inv(2) same_core_inv(2) [OF sc])
  show "timeout_status (asyncs st p) \<noteq> STATUS_PENDING \<Longrightarrow> terminated_not_pending st \<Longrightarrow>
     terminated_not_pending (async_timeout p st)"
    by (simp add: async_timeout_def Let_def ts async_terminate_inv(3) same_core_inv(3) [OF sc])
qed

lemma free_async_queue_entry_core:
  "core (asyncs (free_async_queue_entry p st) q) =
     (if q = p then (None, None, True, alerted (asyncs st p), iosb (asyncs st p))
      else core (asyncs st q))"
  "status (iosbs (free_async_queue_entry p st) b) =
     (if \<not> terminated (asyncs st p) \<and> iosb (asyncs st p) = Some b \<and>
         status (iosbs st b) = STATUS_PENDING
      then STATUS_HANDLES_CLOSED else status (iosbs st b))"
proof -
  define st1 where "st1 = (if completion (asyncs st p) = None
                 then upd_async p (\<lambda>a. a\<lparr>completion := fst (fd_get_completion st (fd a)),
                                          comp_key := snd (fd_get_completion st (fd a))\<rparr>) st
                 else st)"
  define st2 where "st2 = upd_async p (\<lambda>a. a\<lparr>fd := None\<rparr>) st1"
  have eq: "free_async_queue_entry p st =
      call (Release_async p)
        (upd_async p (\<lambda>a. a\<lparr>queue := None\<rparr>) (async_terminate p STATUS_HANDLES_CLOSED st2))"
    unfolding free_async_queue_entry_def Let_def st1_def st2_def by (rule refl)
  have c1: "core (asyncs st1 r) = core (asyncs st r)" "iosbs st1 = iosbs st" for r
    by (simp_all add: st1_def core_def)
  have c2: "core (asyncs st2 r) =
      (if r = p then (queue (asyncs st p), None, terminated (asyncs st p),
                      alerted (asyncs st p), iosb (asyncs st p))
       else core (asyncs st r))" "iosbs st2 = iosbs st" for r
    using c1(1) [of p] c1(1) [of r] c1(2) by (simp_all add: st2_def core_def)
  have na: "STATUS_HANDLES_CLOSED \<noteq> STATUS_ALERTED"
    by (simp add: STATUS_HANDLES_CLOSED_def STATUS_ALERTED_def)
  have c3: "core (asyncs (async_terminate p STATUS_HANDLES_CLOSED st2) r) =
      (if r = p then (queue (asyncs st p), None, True, alerted (asyncs st p), iosb (asyncs st p))
       else core (asyncs st r))" for r
    using c2(1) [of p] c2(1) [of r]
    by (simp only: async_terminate_core) (auto simp: core_def na)
  show "core (asyncs (free_async_queue_entry p st) q) =
     (if q = p then (None, None, True, alerted (asyncs st p), iosb (asyncs st p))
      else core (asyncs st q))"
    using c3 [of p] c3 [of q] by (auto simp: eq core_def)
  show "status (iosbs (free_async_queue_entry p st) b) =
     (if \<not> terminated (asyncs st p) \<and> iosb (asyncs st p) = Some b \<and>
         status (iosbs st b) = STATUS_PENDING
      then STATUS_HANDLES_CLOSED else status (iosbs st b))"
    using c2(1) [of p] c2(2)
    by (simp add: eq async_terminate_core(2) core_def)
qed

lemma free_async_queue_entry_inv:
  "queued_has_fd st \<Longrightarrow> queued_has_fd (free_async_queue_entry p st)"
  "alerted_is_terminated st \<Longrightarrow> alerted_is_terminated (free_async_queue_entry p st)"
  "terminated_not_pending st \<Longrightarrow> terminated_not_pending (free_async_queue_entry p st)"
proof -
  have np: "STATUS_HANDLES_CLOSED \<noteq> STATUS_PENDING"
    by (simp add: STATUS_HANDLES_CLOSED_def STATUS_PENDING_def)
  show "queued_has_fd st \<Longrightarrow> queued_has_fd (free_async_queue_entry p st)"
    unfolding inv_core by (simp only: free_async_queue_entry_core) (auto simp: core_def)
  show "alerted_is_terminated st \<Longrightarrow> alerted_is_terminated (free_async_queue_entry p st)"
    unfolding inv_core by (simp only: free_async_queue_entry_core) (auto simp: core_def)
  show "terminated_not_pending st \<Longrightarrow> terminated_not_pending (free_async_queue_entry p st)"
    unfolding inv_core by (simp only: free_async_queue_entry_core) (auto simp: core_def np)
qed

lemma free_async_queue_loop_inv:
  "queued_has_fd st \<Longrightarrow> queued_has_fd (free_async_queue_loop ps st)"
  "alerted_is_terminated st \<Longrightarrow> alerted_is_terminated (free_async_queue_loop ps st)"
  "terminated_not_pending st \<Longrightarrow> terminated_not_pending (free_async_queue_loop ps st)"
  by (induction ps arbitrary: st) (simp_all add: free_async_queue_entry_inv)

lemma queue_async_core:
  "core (asyncs (queue_async qu p st) q) =
     (if q = p then (Some qu, fd (asyncs st p), terminated (asyncs st p),
                     alerted (asyncs st p), iosb (asyncs st p))
      else core (asyncs st q))"
  "iosbs (queue_async qu p st) = iosbs st"
  by (simp_all add: queue_async_def Let_def core_def upd_async_def call_def)

lemma queue_async_inv:
  "fd (asyncs st p) \<noteq> None \<Longrightarrow> queued_has_fd st \<Longrightarrow> queued_has_fd (queue_async qu p st)"
  "alerted_is_terminated st \<Longrightarrow> alerted_is_terminated (queue_async qu p st)"
  "terminated_not_pending st \<Longrightarrow> terminated_not_pending (queue_async qu p st)"
proof -
  show "fd (asyncs st p) \<noteq> None \<Longrightarrow> queued_has_fd st \<Longrightarrow> queued_has_fd (queue_async qu p st)"
    unfolding inv_core by (simp only: queue_async_core) (auto simp: core_def)
  show "alerted_is_terminated st \<Longrightarrow> alerted_is_terminated (queue_async qu p st)"
    unfolding inv_core by (simp only: queue_async_core) (auto simp: core_def)
  show "terminated_not_pending st \<Longrightarrow> terminated_not_pending (queue_async qu p st)"
    unfolding inv_core by (simp only: queue_async_core) (auto simp: core_def)
qed

lemma async_wake_up_loop_inv:
  "queued_has_fd st \<Longrightarrow> queued_has_fd (async_wake_up_loop ps s st)"
  "alerted_is_terminated st \<Longrightarrow> alerted_is_terminated (async_wake_up_loop ps s st)"
  "s \<noteq> STATUS_PENDING \<Longrightarrow> terminated_not_pending st \<Longrightarrow>
     terminated_not_pending (async_wake_up_loop ps s st)"
  by (induction ps arbitrary: st) (simp_all add: async_terminate_inv Let_def)

lemma fd_cancel_async_inv:
  assumes "fd_cancel_async fo p st = Inr st1"
  shows "queued_has_fd st \<Longrightarrow> queued_has_fd st1"
    "alerted_is_terminated st \<Longrightarrow> alerted_is_terminated st1"
    "terminated_not_pending st \<Longrightarrow> terminated_not_pending st1"
proof -
  from assms obtain f where
    st1: "st1 = async_terminate p STATUS_CANCELLED (call (Fd_cancel_async f p) st)"
    by (auto simp: fd_cancel_async_Inr)
  have np: "STATUS_CANCELLED \<noteq> STATUS_PENDING"
    by (simp add: STATUS_CANCELLED_def STATUS_PENDING_def)
  note sc = same_core_call [of st "Fd_cancel_async f p"]
  show "queued_has_fd st \<Longrightarrow> queued_has_fd st1"
    by (simp add: st1 async_terminate_inv(1) same_core_inv(1) [OF sc])
  show "alerted_is_terminated st \<Longrightarrow> alerted_is_terminated st1"
    by (simp add: st1 async_terminate_inv(2) same_core_inv(2) [OF sc])
  show "terminated_not_pending st \<Longrightarrow> terminated_not_pending st1"
    by (simp add: st1 async_terminate_inv(3) [OF np] same_core_inv(3) [OF sc])
qed

lemma cancel_async_from_preserves:
  assumes step: "\<And>fo p st st1. P st \<Longrightarrow> fd_cancel_async fo p st = Inr st1 \<Longrightarrow> P st1"
  shows "cancel_async_from process obj thr cookie woken st = Inr (count, st') \<Longrightarrow> P st \<Longrightarrow> P st'"
proof (induction process obj thr cookie woken st rule: cancel_async_from.induct)
  case (1 process obj thr cookie woken st)
  from "1.prems"(1) obtain x where
    s: "cancel_scan st obj thr cookie (process_asyncs st process) = Inr x"
    by (subst (asm) cancel_async_from.simps) (auto split: sum.splits)
  show ?case
  proof (cases x)
    case None
    with s "1.prems" show ?thesis
      by (subst (asm) cancel_async_from.simps) simp
  next
    case (Some p)
    with s "1.prems"(1) obtain st1 where
      c: "fd_cancel_async (fd (asyncs st p)) p st = Inr st1"
      and r: "cancel_async_from process obj thr cookie (woken + 1) st1 = Inr (count, st')"
      by (subst (asm) cancel_async_from.simps) (auto split: sum.splits)
    from "1.IH" [OF s Some c r step [OF "1.prems"(2) c]] show ?thesis .
  qed
qed

lemma cancel_async_from_inv:
  assumes "cancel_async_from process obj thr cookie woken st = Inr (count, st')"
  shows "queued_has_fd st \<Longrightarrow> queued_has_fd st'"
    "alerted_is_terminated st \<Longrightarrow> alerted_is_terminated st'"
    "terminated_not_pending st \<Longrightarrow> terminated_not_pending st'"
  by (rule cancel_async_from_preserves [OF _ assms], erule (1) fd_cancel_async_inv, assumption)+

lemma async_handoff_status_inv:
  assumes "async_handoff_status p st = Inr st1"
  shows "queued_has_fd st \<Longrightarrow> queued_has_fd st1"
    "alerted_is_terminated st \<Longrightarrow> alerted_is_terminated st1"
    "terminated_not_pending st \<Longrightarrow> terminated_not_pending st1"
proof -
  have "(last_error st \<noteq> STATUS_PENDING \<and> st1 = async_terminate p (last_error st) st) \<or>
        same_core st st1"
    using assms
    by (auto simp: async_handoff_status_def same_core_def split: if_splits option.splits)
  then show "queued_has_fd st \<Longrightarrow> queued_has_fd st1"
    "alerted_is_terminated st \<Longrightarrow> alerted_is_terminated st1"
    "terminated_not_pending st \<Longrightarrow> terminated_not_pending st1"
    by (auto simp: async_terminate_inv same_core_inv)
qed

lemma async_handoff_inv:
  assumes "async_handoff p res fb st = Inr (h, r, st')"
  shows "queued_has_fd st \<Longrightarrow> queued_has_fd st'"
    "alerted_is_terminated st \<Longrightarrow> alerted_is_terminated st'"
    "terminated_not_pending st \<Longrightarrow> terminated_not_pending st'"
proof -
  have "same_core st st' \<or>
        (\<exists>st1. async_handoff_status p st = Inr st1 \<and> same_core st1 st')"
    using assms
    by (auto simp: async_handoff_def same_core_def core_def
        split: if_splits sum.splits dest: same_core_async_handoff_finish)
  then show "queued_has_fd st \<Longrightarrow> queued_has_fd st'"
    "alerted_is_terminated st \<Longrightarrow> alerted_is_terminated st'"
    "terminated_not_pending st \<Longrightarrow> terminated_not_pending st'"
    by (auto simp: same_core_inv dest: async_handoff_status_inv)
qed

lemma async_request_complete_inv:
  assumes "async_request_complete p s res osize odata st = Inr st'"
  shows "queued_has_fd st \<Longrightarrow> queued_has_fd st'"
    "alerted_is_terminated st \<Longrightarrow> alerted_is_terminated st'"
    "s \<noteq> STATUS_PENDING \<Longrightarrow> terminated_not_pending st \<Longrightarrow> terminated_not_pending st'"
proof -
  from assms obtain b where b: "iosb (asyncs st p) = Some b"
    by (auto simp: async_request_complete_def split: option.splits)
  let ?st3 = "call (Release_iosb b)
                (upd_iosb b (\<lambda>x. x\<lparr>status := s, result := res, out_data := odata,
                                  out_size := osize\<rparr>) (call (Grab_iosb b) st))"
  from assms b have cases:
    "same_core st st' \<or>
     (status (iosbs st b) = STATUS_PENDING \<and> st' = async_terminate p s ?st3)"
    by (auto simp: async_request_complete_def Let_def same_core_def split: if_splits)
  have c: "core (asyncs ?st3 q) = core (asyncs st q)" for q
    by simp
  have i: "status (iosbs ?st3 c) = (if c = b then s else status (iosbs st c))" for c
    by simp
  have 1: "queued_has_fd st \<Longrightarrow> queued_has_fd ?st3"
    and 2: "alerted_is_terminated st \<Longrightarrow> alerted_is_terminated ?st3"
    and 3: "s \<noteq> STATUS_PENDING \<Longrightarrow> terminated_not_pending st \<Longrightarrow> terminated_not_pending ?st3"
    unfolding inv_core by (simp_all only: c i) (auto simp: core_def)
  show "queued_has_fd st \<Longrightarrow> queued_has_fd st'"
    using cases 1 by (auto simp: same_core_inv async_terminate_inv)
  show "alerted_is_terminated st \<Longrightarrow> alerted_is_terminated st'"
    using cases 2 by (auto simp: same_core_inv async_terminate_inv)
  show "s \<noteq> STATUS_PENDING \<Longrightarrow> terminated_not_pending st \<Longrightarrow> terminated_not_pending st'"
    using cases 3 by (auto simp: same_core_inv async_terminate_inv)
qed

lemma restart_core:
  "core (asyncs (async_reselect p
                   (upd_async p (\<lambda>a. a\<lparr>terminated := False, alerted := False\<rparr>) st)) q) =
     (if q = p then (queue (asyncs st p), fd (asyncs st p), False, False, iosb (asyncs st p))
      else core (asyncs st q))"
  "iosbs (async_reselect p
            (upd_async p (\<lambda>a. a\<lparr>terminated := False, alerted := False\<rparr>) st)) = iosbs st"
  by (simp_all add: core_def)

lemma restart_inv:
  "queued_has_fd st \<Longrightarrow>
     queued_has_fd (async_reselect p
                      (upd_async p (\<lambda>a. a\<lparr>terminated := False, alerted := False\<rparr>) st))"
  "alerted_is_terminated st \<Longrightarrow>
     alerted_is_terminated (async_reselect p
                      (upd_async p (\<lambda>a. a\<lparr>terminated := False, alerted := False\<rparr>) st))"
  "terminated_not_pending st \<Longrightarrow>
     terminated_not_pending (async_reselect p
                      (upd_async p (\<lambda>a. a\<lparr>terminated := False, alerted := False\<rparr>) st))"
  unfolding inv_core by (simp_all only: restart_core) (auto simp: core_def)

lemma async_set_result_inv:
  assumes "async_set_result p s tot st = Inr st'"
  shows "queued_has_fd st \<Longrightarrow> queued_has_fd st'"
    "alerted_is_terminated st \<Longrightarrow> alerted_is_terminated st'"
    "(s = STATUS_PENDING \<longrightarrow> alerted (asyncs st p)) \<Longrightarrow> terminated_not_pending st \<Longrightarrow>
       terminated_not_pending st'"
proof -
  from assms have cases:
    "st' = st \<or>
     (alerted (asyncs st p) \<and> s = STATUS_PENDING \<and>
      st' = async_reselect p
              (upd_async p (\<lambda>a. a\<lparr>terminated := False, alerted := False\<rparr>) st)) \<or>
     (\<not> (alerted (asyncs st p) \<and> s = STATUS_PENDING) \<and>
      st' = async_set_result_final p s tot st)"
    by (auto simp: async_set_result_def split: if_splits)
  show "queued_has_fd st \<Longrightarrow> queued_has_fd st'"
    using cases by (auto simp: restart_inv async_set_result_final_inv)
  show "alerted_is_terminated st \<Longrightarrow> alerted_is_terminated st'"
    using cases by (auto simp: restart_inv async_set_result_final_inv)
  show "(s = STATUS_PENDING \<longrightarrow> alerted (asyncs st p)) \<Longrightarrow> terminated_not_pending st \<Longrightarrow>
       terminated_not_pending st'"
    using cases by (auto simp: restart_inv async_set_result_final_inv)
qed

lemma async_satisfied_cases:
  assumes "async_satisfied obj entry st = Inr st'"
  shows "same_core st st' \<or>
         (\<exists>b st1. iosb (asyncs st obj) = Some b \<and> terminated (asyncs st obj) \<and>
            async_set_result obj (status (iosbs st b)) (ucast (result (iosbs st b))) st = Inr st1 \<and>
            same_core st1 st')"
proof -
  from assms have o: "ops (asyncs st obj) = Async_ops"
    by (auto simp: async_satisfied_def split: if_splits)
  from assms o obtain b where b: "iosb (asyncs st obj) = Some b"
    by (auto simp: async_satisfied_def split: option.splits)
  show ?thesis
  proof (cases "direct_result (asyncs st obj)")
    case False
    with assms o b have "st' =
        (if wait_handle (asyncs (call (Set_wait_status entry (status (iosbs st b))) st) obj) \<noteq> 0
         then upd_async obj (\<lambda>a. a\<lparr>wait_handle := 0\<rparr>)
                (call (Close_handle (thread_process st (thread (asyncs st obj)))
                         (wait_handle (asyncs st obj)))
                   (call (Set_wait_status entry (status (iosbs st b))) st))
         else call (Set_wait_status entry (status (iosbs st b))) st)"
      by (auto simp: async_satisfied_def Let_def split: if_splits)
    then show ?thesis
      by (simp add: same_core_def core_def)
  next
    case True
    let ?r = "async_set_result obj (status (iosbs st b)) (ucast (result (iosbs st b))) st"
    from assms o b True obtain st1 where st1: "?r = Inr st1"
      by (cases ?r) (auto simp: async_satisfied_def)
    from st1 o have t: "terminated (asyncs st obj)"
      by (auto simp: async_set_result_def split: if_splits)
    let ?st2 = "upd_async obj (\<lambda>a. a\<lparr>direct_result := False\<rparr>) st1"
    have s12: "same_core st1 ?st2"
      by (rule same_core_upd_async) (simp add: core_def)
    from assms o b True st1 obtain b2 where
      "st' = (if wait_handle (asyncs (call (Set_wait_status entry (status (iosbs ?st2 b2))) ?st2) obj) \<noteq> 0
         then upd_async obj (\<lambda>a. a\<lparr>wait_handle := 0\<rparr>)
                (call (Close_handle (thread_process ?st2 (thread (asyncs ?st2 obj)))
                         (wait_handle (asyncs ?st2 obj)))
                   (call (Set_wait_status entry (status (iosbs ?st2 b2))) ?st2))
         else call (Set_wait_status entry (status (iosbs ?st2 b2))) ?st2)"
      by (auto simp: async_satisfied_def Let_def split: option.splits if_splits)
    then have "same_core ?st2 st'"
      by (simp add: same_core_def core_def)
    with s12 have "same_core st1 st'"
      by (rule same_core_trans)
    with b t st1 show ?thesis by blast
  qed
qed

lemma async_satisfied_inv:
  assumes "async_satisfied obj entry st = Inr st'"
  shows "queued_has_fd st \<Longrightarrow> queued_has_fd st'"
    "alerted_is_terminated st \<Longrightarrow> alerted_is_terminated st'"
    "terminated_not_pending st \<Longrightarrow> terminated_not_pending st'"
proof -
  note c = async_satisfied_cases [OF assms]
  show "queued_has_fd st \<Longrightarrow> queued_has_fd st'"
    using c by (auto simp: same_core_inv dest: async_set_result_inv(1))
  show "alerted_is_terminated st \<Longrightarrow> alerted_is_terminated st'"
    using c by (auto simp: same_core_inv dest: async_set_result_inv(2))
  show "terminated_not_pending st'" if i: "terminated_not_pending st"
    using c
  proof
    assume "same_core st st'"
    with i show ?thesis by (simp add: same_core_inv)
  next
    assume "\<exists>b st1. iosb (asyncs st obj) = Some b \<and> terminated (asyncs st obj) \<and>
            async_set_result obj (status (iosbs st b)) (ucast (result (iosbs st b))) st = Inr st1 \<and>
            same_core st1 st'"
    then obtain b st1 where b: "iosb (asyncs st obj) = Some b" and t: "terminated (asyncs st obj)"
      and r: "async_set_result obj (status (iosbs st b)) (ucast (result (iosbs st b))) st = Inr st1"
      and s: "same_core st1 st'" by blast
    from i b t have "status (iosbs st b) \<noteq> STATUS_PENDING"
      by (auto simp: terminated_not_pending_def)
    then have "terminated_not_pending st1"
      using async_set_result_inv(3) [OF r] i by simp
    with s show ?thesis by (simp add: same_core_inv)
  qed
qed

lemma req_cancel_async_cases:
  assumes "req_cancel_async req st = Inr st'"
  shows "st' = st \<or>
         (\<exists>process obj thr cookie count st1.
            cancel_async_from process obj thr cookie 0 st = Inr (count, st1) \<and> same_core st1 st')"
proof (cases "get_handle_obj st (thread_process st (current st)) (req_handle req)")
  case None
  with assms show ?thesis by (simp add: req_cancel_async_def)
next
  case (Some ob)
  let ?thr = "if req_only_thread req \<noteq> 0 then Some (current st) else None"
  let ?c = "cancel_async_from (thread_process st (current st)) (Some ob) ?thr (req_iosb req) 0 st"
  from assms Some obtain count st1 where c: "?c = Inr (count, st1)"
    by (cases ?c) (auto simp: req_cancel_async_def cancel_async_def Let_def)
  with assms Some have "same_core st1 st'"
    by (auto simp: req_cancel_async_def cancel_async_def Let_def same_core_def)
  with c show ?thesis by blast
qed

lemma cancel_process_asyncs_cases:
  assumes "cancel_process_asyncs process st = Inr st'"
  shows "\<exists>count. cancel_async_from process None None 0 0 st = Inr (count, st')"
  using assms
  by (auto simp: cancel_process_asyncs_def cancel_async_def split: sum.splits)

lemma req_cancel_async_inv:
  assumes "req_cancel_async req st = Inr st'"
  shows "queued_has_fd st \<Longrightarrow> queued_has_fd st'"
    "alerted_is_terminated st \<Longrightarrow> alerted_is_terminated st'"
    "terminated_not_pending st \<Longrightarrow> terminated_not_pending st'"
  using req_cancel_async_cases [OF assms]
  by (auto simp: same_core_inv dest: cancel_async_from_inv)

lemma cancel_process_asyncs_inv:
  assumes "cancel_process_asyncs process st = Inr st'"
  shows "queued_has_fd st \<Longrightarrow> queued_has_fd st'"
    "alerted_is_terminated st \<Longrightarrow> alerted_is_terminated st'"
    "terminated_not_pending st \<Longrightarrow> terminated_not_pending st'"
  using cancel_process_asyncs_cases [OF assms]
  by (auto dest: cancel_async_from_inv)

lemmas same_core_simple_inv =
  same_core_inv [OF same_core_set_async_pending]
  same_core_inv [OF same_core_async_set_unknown_status]
  same_core_inv [OF same_core_req_get_async_result]
  same_core_inv [OF same_core_set_error]

lemma run_inv:
  assumes "run x st = Inr st'"
  shows "fd_held x st \<Longrightarrow> queued_has_fd st \<Longrightarrow> queued_has_fd st'"
    "alerted_is_terminated st \<Longrightarrow> alerted_is_terminated st'"
    "no_pending_status x st \<Longrightarrow> terminated_not_pending st \<Longrightarrow> terminated_not_pending st'"
proof -
  show "fd_held x st \<Longrightarrow> queued_has_fd st \<Longrightarrow> queued_has_fd st'"
    using assms
    by (cases x)
       (auto simp: async_terminate_inv async_timeout_inv free_async_queue_def
          free_async_queue_loop_inv queue_async_inv same_core_simple_inv
          async_wake_up_def async_wake_up_loop_inv
          split: sum.splits
          dest: async_handoff_inv async_request_complete_inv async_set_result_inv
            async_satisfied_inv req_cancel_async_inv cancel_process_asyncs_inv)
  show "alerted_is_terminated st \<Longrightarrow> alerted_is_terminated st'"
    using assms
    by (cases x)
       (auto simp: async_terminate_inv async_timeout_inv free_async_queue_def
          free_async_queue_loop_inv queue_async_inv same_core_simple_inv
          async_wake_up_def async_wake_up_loop_inv
          split: sum.splits
          dest: async_handoff_inv async_request_complete_inv async_set_result_inv
            async_satisfied_inv req_cancel_async_inv cancel_process_asyncs_inv)
  show "no_pending_status x st \<Longrightarrow> terminated_not_pending st \<Longrightarrow> terminated_not_pending st'"
    using assms
    by (cases x)
       (auto simp: async_terminate_inv async_timeout_inv free_async_queue_def
          free_async_queue_loop_inv queue_async_inv same_core_simple_inv
          async_wake_up_def async_wake_up_loop_inv
          split: sum.splits
          dest: async_handoff_inv async_request_complete_inv async_set_result_inv
            async_satisfied_inv req_cancel_async_inv cancel_process_asyncs_inv)
qed

subsection \<open>Invariants along a run\<close>

lemma run_all_inv:
  assumes "run_all xs st = Inr st'"
  shows "holds_along fd_held xs st \<Longrightarrow> queued_has_fd st \<Longrightarrow> queued_has_fd st'"
    "alerted_is_terminated st \<Longrightarrow> alerted_is_terminated st'"
    "holds_along no_pending_status xs st \<Longrightarrow> terminated_not_pending st \<Longrightarrow>
       terminated_not_pending st'"
  using assms
proof (induction xs arbitrary: st)
  case Nil
  {
    case 1 then show ?case by simp
  next
    case 2 then show ?case by simp
  next
    case 3 then show ?case by simp
  }
next
  case (Cons x xs)
  {
    case 1
    then obtain st1 where r: "run x st = Inr st1" and rest: "run_all xs st1 = Inr st'"
      by (auto split: sum.splits)
    with 1 have "queued_has_fd st1" "holds_along fd_held xs st1"
      by (auto dest: run_inv(1))
    then show ?case using Cons.IH(1) rest by blast
  next
    case 2
    then obtain st1 where r: "run x st = Inr st1" and rest: "run_all xs st1 = Inr st'"
      by (auto split: sum.splits)
    with 2 have "alerted_is_terminated st1"
      by (auto dest: run_inv(2))
    then show ?case using Cons.IH(2) rest by blast
  next
    case 3
    then obtain st1 where r: "run x st = Inr st1" and rest: "run_all xs st1 = Inr st'"
      by (auto split: sum.splits)
    with 3 have "terminated_not_pending st1" "holds_along no_pending_status xs st1"
      by (auto dest: run_inv(3))
    then show ?case using Cons.IH(3) rest by blast
  }
qed

lemma core_eq:
  "core a = core a' \<longleftrightarrow>
     queue a = queue a' \<and> fd a = fd a' \<and> terminated a = terminated a' \<and>
     alerted a = alerted a' \<and> iosb a = iosb a'"
  "core a = (x1, x2, x3, x4, x5) \<longleftrightarrow>
     queue a = x1 \<and> fd a = x2 \<and> terminated a = x3 \<and> alerted a = x4 \<and> iosb a = x5"
  by (auto simp: core_def)




lemma ex_state_inv:
  "queued_has_fd ex_state" "alerted_is_terminated ex_state" "terminated_not_pending ex_state"
  by (simp_all add: queued_has_fd_def alerted_is_terminated_def terminated_not_pending_def
      ex_state_def ex_async_def)

lemma ex_queued:
  "asyncs (queue_async 5 8 ex_state) 8 = ex_async\<lparr>queue := Some 5\<rparr>"
  "queues (queue_async 5 8 ex_state) 5 = [8]"
  by (simp_all add: queue_async_def ex_state_def Let_def call_def upd_async_def)

text \<open>
  Whenever \<open>alerted\<close> is set, \<open>terminated\<close> is set: async_terminate sets \<open>alerted\<close> after
  \<open>terminated\<close>, and the restart of async_set_result clears both. So the assertion at the
  entry of async_set_result holds for every alerted async.
\<close>

lemma run_all_alerted_is_terminated:
  "run_all xs st = Inr st' \<Longrightarrow> alerted_is_terminated st \<Longrightarrow> alerted_is_terminated st'"
  by (rule run_all_inv(2))

subsection \<open>Steps that keep every fd\<close>

lemma fd_same_refl [simp]: "fd_same st st"
  by (simp add: fd_same_def)





lemma fd_same_restart [simp]:
  "fd_same st (async_reselect p (upd_async p (\<lambda>a. a\<lparr>terminated := False, alerted := False\<rparr>) st))"
  by (simp add: fd_same_def)





subsection \<open>The effect of each operation on the fd of an async\<close>

lemma async_handoff_status_cases:
  assumes "async_handoff_status p st = Inr st1"
  shows "(last_error st \<noteq> STATUS_PENDING \<and> st1 = async_terminate p (last_error st) st) \<or>
         same_core st st1"
  using assms
  by (auto simp: async_handoff_status_def same_core_def split: if_splits option.splits)

lemma async_handoff_cases:
  assumes "async_handoff p res fb st = Inr (h, r, st')"
  shows "same_core st st' \<or>
         (\<exists>st1. async_handoff_status p st = Inr st1 \<and> same_core st1 st')"
  using assms
  by (auto simp: async_handoff_def same_core_def core_def
      split: if_splits sum.splits dest: same_core_async_handoff_finish)

lemma async_request_complete_cases:
  assumes "async_request_complete p s res osize odata st = Inr st'"
  shows "same_core st st' \<or>
         (\<exists>b st3. iosb (asyncs st p) = Some b \<and> status (iosbs st b) = STATUS_PENDING \<and>
            st' = async_terminate p s st3 \<and>
            (\<forall>q. core (asyncs st3 q) = core (asyncs st q)) \<and>
            (\<forall>c. status (iosbs st3 c) = (if c = b then s else status (iosbs st c))))"
proof -
  from assms obtain b where b: "iosb (asyncs st p) = Some b"
    by (auto simp: async_request_complete_def split: option.splits)
  let ?st3 = "call (Release_iosb b)
                (upd_iosb b (\<lambda>x. x\<lparr>status := s, result := res, out_data := odata,
                                  out_size := osize\<rparr>) (call (Grab_iosb b) st))"
  from assms b have
    "same_core st st' \<or>
     (status (iosbs st b) = STATUS_PENDING \<and> st' = async_terminate p s ?st3)"
    by (auto simp: async_request_complete_def Let_def same_core_def split: if_splits)
  moreover have "\<forall>q. core (asyncs ?st3 q) = core (asyncs st q)"
    "\<forall>c. status (iosbs ?st3 c) = (if c = b then s else status (iosbs st c))"
    by simp_all
  ultimately show ?thesis using b by blast
qed

lemma async_set_result_cases:
  assumes "async_set_result p s tot st = Inr st'"
  shows "(ops (asyncs st p) \<noteq> Async_ops \<and> st' = st) \<or>
     (ops (asyncs st p) = Async_ops \<and> terminated (asyncs st p) \<and>
      alerted (asyncs st p) \<and> s = STATUS_PENDING \<and>
      st' = async_reselect p
              (upd_async p (\<lambda>a. a\<lparr>terminated := False, alerted := False\<rparr>) st)) \<or>
     (ops (asyncs st p) = Async_ops \<and> terminated (asyncs st p) \<and>
      \<not> (alerted (asyncs st p) \<and> s = STATUS_PENDING) \<and>
      st' = async_set_result_final p s tot st)"
  using assms by (auto simp: async_set_result_def split: if_splits)

lemma async_satisfied_cases2:
  assumes "async_satisfied obj entry st = Inr st'"
  shows "(\<not> direct_result (asyncs st obj) \<and> same_core st st') \<or>
         (direct_result (asyncs st obj) \<and>
          (\<exists>b st1. iosb (asyncs st obj) = Some b \<and>
             async_set_result obj (status (iosbs st b)) (ucast (result (iosbs st b))) st = Inr st1 \<and>
             same_core st1 st'))"
proof -
  from assms have o: "ops (asyncs st obj) = Async_ops"
    by (auto simp: async_satisfied_def split: if_splits)
  from assms o obtain b where b: "iosb (asyncs st obj) = Some b"
    by (auto simp: async_satisfied_def split: option.splits)
  show ?thesis
  proof (cases "direct_result (asyncs st obj)")
    case False
    with assms o b have "same_core st st'"
      by (auto simp: async_satisfied_def Let_def same_core_def core_def split: if_splits)
    with False show ?thesis by simp
  next
    case True
    let ?r = "async_set_result obj (status (iosbs st b)) (ucast (result (iosbs st b))) st"
    from assms o b True obtain st1 where st1: "?r = Inr st1"
      by (cases ?r) (auto simp: async_satisfied_def)
    with assms o b True have "same_core st1 st'"
      by (auto simp: async_satisfied_def Let_def same_core_def core_def
          split: option.splits if_splits)
    with True b st1 show ?thesis by blast
  qed
qed






subsection \<open>Steps that keep a live async with its PENDING iosb\<close>

lemma steady_core:
  "steady p st st' \<longleftrightarrow>
     (\<forall>q. case core (asyncs st' q) of (q', f', t', a', i') \<Rightarrow>
           case core (asyncs st q) of (q0, f0, t0, a0, i0) \<Rightarrow> i' = i0) \<and>
     (case core (asyncs st' p) of (q', f', t', a', i') \<Rightarrow>
      case core (asyncs st p) of (q0, f0, t0, a0, i0) \<Rightarrow>
        \<not> t' \<longrightarrow> \<not> t0 \<and> (\<forall>b. i0 = Some b \<longrightarrow> status (iosbs st' b) = status (iosbs st b)))"
  by (simp add: steady_def core_def)

lemma steady_refl [simp]: "steady p st st"
  by (simp add: steady_def)

lemma steady_trans: "steady p st st1 \<Longrightarrow> steady p st1 st2 \<Longrightarrow> steady p st st2"
  by (simp add: steady_def)

lemma steady_own: "steady p st st' \<Longrightarrow> iosb_own st p \<Longrightarrow> iosb_own st' p"
  by (simp add: steady_def iosb_own_def)

lemma steady_live: "steady p st st' \<Longrightarrow> live_is_pending st p \<Longrightarrow> live_is_pending st' p"
  by (auto simp: steady_def live_is_pending_def)

lemma same_core_steady: "same_core st st' \<Longrightarrow> steady p st st'"
  by (simp add: same_core_def steady_def core_eq)

lemma steady_async_terminate: "iosb_own st p \<Longrightarrow> steady p st (async_terminate q s st)"
  unfolding steady_core
  by (simp only: async_terminate_core) (auto simp: core_def iosb_own_def)

lemma steady_final: "iosb_own st p \<Longrightarrow> steady p st (async_set_result_final q s tot st)"
  unfolding steady_core
  by (simp only: async_set_result_final_core) (auto simp: core_def iosb_own_def)

lemma steady_restart:
  "q \<noteq> p \<Longrightarrow>
   steady p st (async_reselect q (upd_async q (\<lambda>a. a\<lparr>terminated := False, alerted := False\<rparr>) st))"
  unfolding steady_core
  by (simp only: restart_core) (auto simp: core_def)

lemma steady_queue_async: "steady p st (queue_async qu q st)"
  unfolding steady_core
  by (simp only: queue_async_core) (auto simp: core_def)

lemma steady_free_async_queue_entry:
  "iosb_own st p \<Longrightarrow> steady p st (free_async_queue_entry q st)"
  unfolding steady_core
  by (simp only: free_async_queue_entry_core) (auto simp: core_def iosb_own_def)

lemma steady_free_async_queue_loop:
  "iosb_own st p \<Longrightarrow> steady p st (free_async_queue_loop ps st)"
proof (induction ps arbitrary: st)
  case Nil
  show ?case by simp
next
  case (Cons q ps)
  note a = steady_free_async_queue_entry [OF Cons.prems, of q]
  from steady_trans [OF a Cons.IH [OF steady_own [OF a Cons.prems]]]
  show ?case by simp
qed

lemma steady_async_wake_up_loop:
  "iosb_own st p \<Longrightarrow> steady p st (async_wake_up_loop ps s st)"
proof (induction ps arbitrary: st)
  case Nil
  show ?case by simp
next
  case (Cons q ps)
  note a = steady_async_terminate [OF Cons.prems, of q s]
  from steady_trans [OF a Cons.IH [OF steady_own [OF a Cons.prems]]] a
  show ?case by (cases "s = STATUS_ALERTED") (simp_all add: Let_def)
qed

lemma steady_async_timeout: "iosb_own st p \<Longrightarrow> steady p st (async_timeout q st)"
proof -
  assume o: "iosb_own st p"
  let ?st1 = "upd_async q (\<lambda>a. a\<lparr>timeout := None\<rparr>) st"
  have a: "steady p st ?st1"
    by (rule same_core_steady, rule same_core_upd_async) (simp add: core_def)
  from steady_trans [OF a steady_async_terminate [OF steady_own [OF a o]]]
  show ?thesis by (simp add: async_timeout_def Let_def)
qed

lemma steady_fd_cancel_async:
  assumes "fd_cancel_async fo q st = Inr st1" and o: "iosb_own st p"
  shows "steady p st st1"
proof -
  from assms obtain f where
    st1: "st1 = async_terminate q STATUS_CANCELLED (call (Fd_cancel_async f q) st)"
    by (auto simp: fd_cancel_async_Inr)
  have a: "steady p st (call (Fd_cancel_async f q) st)"
    by (rule same_core_steady) simp
  from steady_trans [OF a steady_async_terminate [OF steady_own [OF a o]]]
  show ?thesis by (simp add: st1)
qed

lemma steady_cancel_async_from:
  assumes c: "cancel_async_from process obj thr cookie woken st = Inr (count, st')"
    and o: "iosb_own st p"
  shows "steady p st st'"
proof (rule cancel_async_from_preserves [where P = "steady p st", OF _ c])
  show "steady p st st" by simp
next
  fix fo q s s1
  assume a: "steady p st s" and f: "fd_cancel_async fo q s = Inr s1"
  from steady_trans [OF a steady_fd_cancel_async [OF f steady_own [OF a o]]]
  show "steady p st s1" .
qed

lemma steady_async_handoff:
  assumes "async_handoff q res fb st = Inr (h, r, st')" and o: "iosb_own st p"
  shows "steady p st st'"
proof -
  have st: "steady p st st1" if "async_handoff_status q st = Inr st1" for st1
    using async_handoff_status_cases [OF that] o
    by (auto intro: same_core_steady steady_async_terminate)
  from async_handoff_cases [OF assms(1)] show ?thesis
    by (auto intro: same_core_steady steady_trans [OF st same_core_steady])
qed

lemma steady_async_request_complete:
  assumes "async_request_complete q s res osize odata st = Inr st'" and o: "iosb_own st p"
  shows "steady p st st'"
  using async_request_complete_cases [OF assms(1)]
proof
  assume "same_core st st'"
  then show ?thesis by (rule same_core_steady)
next
  assume "\<exists>b st3. iosb (asyncs st q) = Some b \<and> status (iosbs st b) = STATUS_PENDING \<and>
            st' = async_terminate q s st3 \<and>
            (\<forall>r. core (asyncs st3 r) = core (asyncs st r)) \<and>
            (\<forall>c. status (iosbs st3 c) = (if c = b then s else status (iosbs st c)))"
  then obtain b st3 where b: "iosb (asyncs st q) = Some b"
    and st': "st' = async_terminate q s st3"
    and c3: "\<And>r. core (asyncs st3 r) = core (asyncs st r)"
    and i3: "\<And>c. status (iosbs st3 c) = (if c = b then s else status (iosbs st c))"
    by blast
  show ?thesis
  proof (cases "q = p")
    case True
    have "terminated (asyncs st' p)"
      by (simp add: st' True terminated_async_terminate)
    moreover have "iosb (asyncs st' r) = iosb (asyncs st r)" for r
      using c3 [of r] by (simp add: st' core_eq)
    ultimately show ?thesis by (simp add: steady_def)
  next
    case False
    with b o have nb: "iosb (asyncs st p) \<noteq> Some b"
      by (auto simp: iosb_own_def)
    have a: "steady p st st3"
      using c3 i3 nb by (auto simp: steady_def core_eq)
    from steady_trans [OF a steady_async_terminate [OF steady_own [OF a o]]]
    show ?thesis by (simp add: st')
  qed
qed

lemma steady_async_set_result:
  assumes "async_set_result obj s tot st = Inr st'" and o: "iosb_own st p"
    and "\<not> set_result_restarts obj s st p"
  shows "steady p st st'"
  using async_set_result_cases [OF assms(1)] o assms(3)
  by (auto simp: set_result_restarts_def intro: steady_final steady_restart)

lemma run_steady:
  assumes "run x st = Inr st'" and o: "iosb_own st p" and n: "not_restarting p x st"
  shows "steady p st st'"
proof (cases x)
  case (Async_terminate q s)
  with assms show ?thesis by (auto intro: steady_async_terminate)
next
  case (Async_timeout q)
  with assms show ?thesis by (auto intro: steady_async_timeout)
next
  case (Free_async_queue q)
  with assms show ?thesis by (auto simp: free_async_queue_def intro: steady_free_async_queue_loop)
next
  case (Queue_async q a)
  with assms show ?thesis by (auto intro: steady_queue_async)
next
  case (Set_async_pending q sg)
  with assms show ?thesis by (auto intro: same_core_steady same_core_set_async_pending)
next
  case (Async_handoff q res fb)
  with assms show ?thesis by (auto split: sum.splits intro: steady_async_handoff)
next
  case (Async_request_complete q s res osize odata)
  with assms show ?thesis by (auto intro: steady_async_request_complete)
next
  case (Async_set_unknown_status q)
  with assms show ?thesis by (auto intro: same_core_steady same_core_async_set_unknown_status)
next
  case (Async_set_result obj s tot)
  with assms show ?thesis
    by (auto simp: not_restarting_def intro: steady_async_set_result)
next
  case (Async_satisfied obj entry)
  with assms have a: "async_satisfied obj entry st = Inr st'" by simp
  from async_satisfied_cases2 [OF a] show ?thesis
  proof
    assume "\<not> direct_result (asyncs st obj) \<and> same_core st st'"
    then show ?thesis by (simp add: same_core_steady)
  next
    assume "direct_result (asyncs st obj) \<and>
          (\<exists>b st1. iosb (asyncs st obj) = Some b \<and>
             async_set_result obj (status (iosbs st b)) (ucast (result (iosbs st b))) st = Inr st1 \<and>
             same_core st1 st')"
    then obtain b st1 where d: "direct_result (asyncs st obj)" and b: "iosb (asyncs st obj) = Some b"
      and r: "async_set_result obj (status (iosbs st b)) (ucast (result (iosbs st b))) st = Inr st1"
      and sc: "same_core st1 st'" by blast
    from n Async_satisfied d b have "\<not> set_result_restarts obj (status (iosbs st b)) st p"
      by (simp add: not_restarting_def)
    from steady_trans [OF steady_async_set_result [OF r o this] same_core_steady [OF sc]]
    show ?thesis .
  qed
next
  case (Cancel_process_asyncs process)
  with assms show ?thesis
    by (auto dest!: cancel_process_asyncs_cases intro: steady_cancel_async_from)
next
  case (Async_wake_up q s)
  with assms show ?thesis by (auto simp: async_wake_up_def intro: steady_async_wake_up_loop)
next
  case (Req_cancel_async req)
  with assms have "req_cancel_async req st = Inr st'" by simp
  from req_cancel_async_cases [OF this] o show ?thesis
    by (auto intro: steady_trans [OF steady_cancel_async_from same_core_steady])
next
  case (Req_get_async_result u)
  with assms show ?thesis by (auto intro: same_core_steady same_core_req_get_async_result)
next
  case (Set_error e)
  with assms show ?thesis by (auto intro: same_core_steady)
qed

lemma run_all_steady:
  "run_all xs st = Inr st' \<Longrightarrow> iosb_own st p \<Longrightarrow> holds_along (not_restarting p) xs st \<Longrightarrow>
   steady p st st'"
proof (induction xs arbitrary: st)
  case Nil
  then show ?case by simp
next
  case (Cons x xs)
  then obtain st1 where r: "run x st = Inr st1" and rest: "run_all xs st1 = Inr st'"
    by (auto split: sum.splits)
  from Cons.prems r have n: "not_restarting p x st" and h: "holds_along (not_restarting p) xs st1"
    by auto
  note a = run_steady [OF r Cons.prems(2) n]
  from steady_trans [OF a Cons.IH [OF rest steady_own [OF a Cons.prems(2)] h]]
  show ?case .
qed

subsection \<open>The fd of a queued async\<close>




subsection \<open>The iosb status of a terminated async\<close>

text \<open>
  C2 says that the iosb status is PENDING exactly when \<open>terminated\<close> is 0, the alerted
  window apart, also right after a restart. The restart clears \<open>terminated\<close> and
  \<open>alerted\<close> and leaves the iosb alone: after async_terminate with ALERTED and the
  client's PENDING reply the async is not terminated and its iosb status is still ALERTED.
\<close>

theorem restart_keeps_iosb_status_counterexample:
  "(case async_set_result 8 STATUS_PENDING 0 (async_terminate 8 STATUS_ALERTED ex_state) of
      Inl f \<Rightarrow> False
    | Inr st \<Rightarrow>
        \<not> terminated (asyncs st 8) \<and> \<not> alerted (asyncs st 8) \<and> iosb (asyncs st 8) = Some 2 \<and>
        status (iosbs st 2) = STATUS_ALERTED) \<and>
   STATUS_ALERTED \<noteq> STATUS_PENDING"
proof -
  let ?t = "async_terminate 8 STATUS_ALERTED ex_state"
  have live: "\<not> terminated (asyncs ex_state 8)" "iosb (asyncs ex_state 8) = Some 2"
    "status (iosbs ex_state 2) = STATUS_PENDING"
    by (simp_all add: ex_state_def ex_async_def ex_iosb_def)
  have a: "asyncs ?t 8 = ex_async\<lparr>terminated := True, alerted := True\<rparr>"
    using live(1) by (simp add: asyncs_async_terminate_live) (simp add: ex_state_def)
  have i: "status (iosbs ?t 2) = STATUS_ALERTED"
    using live by (simp add: iosbs_async_terminate_live)
  have "STATUS_ALERTED \<noteq> STATUS_PENDING"
    by (simp add: STATUS_ALERTED_def STATUS_PENDING_def)
  then show ?thesis
    using a i by (simp add: async_set_result_def ex_async_def)
qed

text \<open>
  The two conditions of the amended statement are needed as well. async_terminate stores
  the status it is given, so given PENDING it leaves a terminated async with a PENDING
  iosb; the final branch of async_set_result does the same for an async that is terminated
  and not alerted. And async_terminate writes the iosb of the async it is given, so when
  two asyncs hold the same iosb the termination of one leaves the other not terminated
  with an iosb that is no longer PENDING.
\<close>

lemma terminate_with_pending_status:
  "terminated (asyncs (async_terminate 8 STATUS_PENDING ex_state) 8) \<and>
   iosb (asyncs (async_terminate 8 STATUS_PENDING ex_state) 8) = Some 2 \<and>
   status (iosbs (async_terminate 8 STATUS_PENDING ex_state) 2) = STATUS_PENDING"
proof -
  have live: "\<not> terminated (asyncs ex_state 8)" "iosb (asyncs ex_state 8) = Some 2"
    "status (iosbs ex_state 2) = STATUS_PENDING"
    by (simp_all add: ex_state_def ex_async_def ex_iosb_def)
  then show ?thesis
    by (simp add: asyncs_async_terminate_live iosbs_async_terminate_live)
qed

lemma set_result_with_pending_status:
  "(case async_set_result 8 STATUS_PENDING 0 (async_terminate 8 STATUS_CANCELLED ex_state) of
      Inl f \<Rightarrow> False
    | Inr st \<Rightarrow>
        terminated (asyncs st 8) \<and> iosb (asyncs st 8) = Some 2 \<and>
        status (iosbs st 2) = STATUS_PENDING)"
proof -
  let ?t = "async_terminate 8 STATUS_CANCELLED ex_state"
  have live: "\<not> terminated (asyncs ex_state 8)" "iosb (asyncs ex_state 8) = Some 2"
    by (simp_all add: ex_state_def ex_async_def)
  have na: "STATUS_CANCELLED \<noteq> STATUS_ALERTED"
    by (simp add: STATUS_CANCELLED_def STATUS_ALERTED_def)
  have a: "asyncs ?t 8 = ex_async\<lparr>terminated := True\<rparr>"
    using live(1) by (simp add: asyncs_async_terminate_live na) (simp add: ex_state_def)
  have c: "terminated (asyncs (async_set_result_final 8 STATUS_PENDING 0 ?t) 8)"
    "iosb (asyncs (async_set_result_final 8 STATUS_PENDING 0 ?t) 8) = Some 2"
    using async_set_result_final_core(1) [of 8 STATUS_PENDING 0 ?t 8]
    by (simp_all add: core_eq a ex_async_def)
  have i: "status (iosbs (async_set_result_final 8 STATUS_PENDING 0 ?t) 2) = STATUS_PENDING"
    by (simp add: async_set_result_final_core(2) a ex_async_def)
  show ?thesis
    using c i by (simp add: async_set_result_def a ex_async_def)
qed

lemma shared_iosb_status:
  "iosb (asyncs (upd_async 6 (\<lambda>a. ex_async) ex_state) 6) =
     iosb (asyncs (upd_async 6 (\<lambda>a. ex_async) ex_state) 8) \<and>
   \<not> terminated (asyncs (upd_async 6 (\<lambda>a. ex_async) ex_state) 8) \<and>
   status (iosbs (upd_async 6 (\<lambda>a. ex_async) ex_state) 2) = STATUS_PENDING \<and>
   \<not> terminated
       (asyncs (async_terminate 6 STATUS_CANCELLED (upd_async 6 (\<lambda>a. ex_async) ex_state)) 8) \<and>
   iosb (asyncs (async_terminate 6 STATUS_CANCELLED (upd_async 6 (\<lambda>a. ex_async) ex_state)) 8) =
     Some 2 \<and>
   status (iosbs (async_terminate 6 STATUS_CANCELLED (upd_async 6 (\<lambda>a. ex_async) ex_state)) 2) =
     STATUS_CANCELLED \<and>
   STATUS_CANCELLED \<noteq> STATUS_PENDING"
proof -
  define s where "s = upd_async 6 (\<lambda>a. ex_async) ex_state"
  have s: "asyncs s 6 = ex_async" "asyncs s 8 = ex_async" "iosbs s 2 = ex_iosb"
    by (simp_all add: s_def upd_async_def ex_state_def)
  have live: "\<not> terminated (asyncs s 6)" "iosb (asyncs s 6) = Some 2"
    "status (iosbs s 2) = STATUS_PENDING"
    by (simp_all add: s ex_async_def ex_iosb_def)
  have o: "asyncs (async_terminate 6 STATUS_CANCELLED s) 8 = ex_async"
    by (simp add: asyncs_async_terminate_other s)
  have i: "status (iosbs (async_terminate 6 STATUS_CANCELLED s) 2) = STATUS_CANCELLED"
    using live by (simp add: iosbs_async_terminate_live)
  have np: "STATUS_CANCELLED \<noteq> STATUS_PENDING"
    by (simp add: STATUS_CANCELLED_def STATUS_PENDING_def)
  have "iosb (asyncs s 6) = iosb (asyncs s 8) \<and>
   \<not> terminated (asyncs s 8) \<and>
   status (iosbs s 2) = STATUS_PENDING \<and>
   \<not> terminated (asyncs (async_terminate 6 STATUS_CANCELLED s) 8) \<and>
   iosb (asyncs (async_terminate 6 STATUS_CANCELLED s) 8) = Some 2 \<and>
   status (iosbs (async_terminate 6 STATUS_CANCELLED s) 2) = STATUS_CANCELLED \<and>
   STATUS_CANCELLED \<noteq> STATUS_PENDING"
    using live i np by (simp add: o s ex_async_def)
  then show ?thesis
    unfolding s_def .
qed

text \<open>
  C2, amended: for every async that holds an iosb, along every run of operations of
  async.c in which no operation is given PENDING as the status to terminate or complete
  with (the client's reply to async_set_result may be PENDING for an alerted async),
  \<open>terminated\<close> set implies that the iosb status is not PENDING. For an async whose iosb
  is the iosb of no other async, along every run that does not restart it, \<open>terminated\<close>
  clear implies that the iosb status is PENDING. So along a run that meets both
  conditions the status is PENDING exactly when \<open>terminated\<close> is clear. async_terminate on
  a live async with a PENDING iosb stores the given status, and sets \<open>alerted\<close> when that
  status is ALERTED. The restart of async_set_result clears \<open>terminated\<close> and \<open>alerted\<close>
  and leaves every iosb as it is, so the equivalence does not hold for a restarted async.
\<close>

theorem terminated_iosb_not_pending:
  "(terminated_not_pending st \<and> holds_along no_pending_status xs st \<and>
    run_all xs st = Inr st' \<longrightarrow> terminated_not_pending st') \<and>
   (live_is_pending st p \<and> iosb_own st p \<and> holds_along (not_restarting p) xs st \<and>
    run_all xs st = Inr st' \<longrightarrow> live_is_pending st' p \<and> iosb_own st' p) \<and>
   (terminated_not_pending st \<and> live_is_pending st p \<and> iosb_own st p \<and>
    holds_along no_pending_status xs st \<and> holds_along (not_restarting p) xs st \<and>
    run_all xs st = Inr st' \<and> iosb (asyncs st' p) = Some b' \<longrightarrow>
      (status (iosbs st' b') = STATUS_PENDING \<longleftrightarrow> \<not> terminated (asyncs st' p))) \<and>
   (\<not> terminated (asyncs st p) \<and> iosb (asyncs st p) = Some b \<and>
    status (iosbs st b) = STATUS_PENDING \<longrightarrow>
      terminated (asyncs (async_terminate p s st) p) \<and>
      status (iosbs (async_terminate p s st) b) = s \<and>
      alerted (asyncs (async_terminate p s st) p) =
        (s = STATUS_ALERTED \<or> alerted (asyncs st p))) \<and>
   (ops (asyncs st p) = Async_ops \<and> terminated (asyncs st p) \<and> alerted (asyncs st p) \<longrightarrow>
      (\<exists>st1. async_set_result p STATUS_PENDING tot st = Inr st1 \<and>
             \<not> terminated (asyncs st1 p) \<and> \<not> alerted (asyncs st1 p) \<and>
             iosb (asyncs st1 p) = iosb (asyncs st p) \<and> iosbs st1 = iosbs st))"
proof (intro conjI impI)
  show "terminated_not_pending st'"
    if "terminated_not_pending st \<and> holds_along no_pending_status xs st \<and>
        run_all xs st = Inr st'"
    using that run_all_inv(3) by blast
next
  assume a: "live_is_pending st p \<and> iosb_own st p \<and> holds_along (not_restarting p) xs st \<and>
    run_all xs st = Inr st'"
  then have s: "steady p st st'"
    using run_all_steady [of xs st st' p] by blast
  from s a show "live_is_pending st' p" by (simp add: steady_live)
  from s a show "iosb_own st' p" by (simp add: steady_own)
next
  assume a: "terminated_not_pending st \<and> live_is_pending st p \<and> iosb_own st p \<and>
    holds_along no_pending_status xs st \<and> holds_along (not_restarting p) xs st \<and>
    run_all xs st = Inr st' \<and> iosb (asyncs st' p) = Some b'"
  then have "steady p st st'"
    using run_all_steady [of xs st st' p] by blast
  with a have l: "live_is_pending st' p" by (simp add: steady_live)
  from a have t: "terminated_not_pending st'"
    using run_all_inv(3) by blast
  from a l t show "status (iosbs st' b') = STATUS_PENDING \<longleftrightarrow> \<not> terminated (asyncs st' p)"
    by (auto simp: live_is_pending_def terminated_not_pending_def)
next
  assume a: "\<not> terminated (asyncs st p) \<and> iosb (asyncs st p) = Some b \<and>
    status (iosbs st b) = STATUS_PENDING"
  then show "terminated (asyncs (async_terminate p s st) p)"
    by (simp add: terminated_async_terminate)
  from a show "status (iosbs (async_terminate p s st) b) = s"
    by (simp add: iosbs_async_terminate_live)
  from a show "alerted (asyncs (async_terminate p s st) p) =
        (s = STATUS_ALERTED \<or> alerted (asyncs st p))"
    by (simp add: asyncs_async_terminate_live)
next
  assume "ops (asyncs st p) = Async_ops \<and> terminated (asyncs st p) \<and> alerted (asyncs st p)"
  then show "\<exists>st1. async_set_result p STATUS_PENDING tot st = Inr st1 \<and>
             \<not> terminated (asyncs st1 p) \<and> \<not> alerted (asyncs st1 p) \<and>
             iosb (asyncs st1 p) = iosb (asyncs st p) \<and> iosbs st1 = iosbs st"
    by (simp add: async_set_result_def)
qed

theorem terminated_iosb_not_pending_witness:
  "terminated_not_pending ex_state \<and>
   holds_along no_pending_status
     [Async_terminate 8 STATUS_ALERTED, Async_set_result 8 STATUS_PENDING 0] ex_state \<and>
   (\<exists>st'. run_all [Async_terminate 8 STATUS_ALERTED, Async_set_result 8 STATUS_PENDING 0]
            ex_state = Inr st' \<and>
          terminated_not_pending st' \<and> \<not> terminated (asyncs st' 8) \<and>
          status (iosbs st' 2) = STATUS_ALERTED) \<and>
   live_is_pending ex_state 8 \<and> iosb_own ex_state 8 \<and>
   holds_along (not_restarting 8)
     [Queue_async 5 8, Async_terminate 6 STATUS_CANCELLED] ex_state \<and>
   holds_along no_pending_status
     [Queue_async 5 8, Async_terminate 6 STATUS_CANCELLED] ex_state \<and>
   run_all [Queue_async 5 8, Async_terminate 6 STATUS_CANCELLED] ex_state =
     Inr (async_terminate 6 STATUS_CANCELLED (queue_async 5 8 ex_state)) \<and>
   iosb (asyncs (async_terminate 6 STATUS_CANCELLED (queue_async 5 8 ex_state)) 8) = Some 2 \<and>
   \<not> terminated (asyncs (async_terminate 6 STATUS_CANCELLED (queue_async 5 8 ex_state)) 8) \<and>
   live_is_pending (async_terminate 6 STATUS_CANCELLED (queue_async 5 8 ex_state)) 8 \<and>
   iosb_own (async_terminate 6 STATUS_CANCELLED (queue_async 5 8 ex_state)) 8 \<and>
   status (iosbs (async_terminate 6 STATUS_CANCELLED (queue_async 5 8 ex_state)) 2) =
     STATUS_PENDING \<and>
   holds_along (not_restarting 8) [Async_terminate 8 STATUS_CANCELLED] ex_state \<and>
   holds_along no_pending_status [Async_terminate 8 STATUS_CANCELLED] ex_state \<and>
   run_all [Async_terminate 8 STATUS_CANCELLED] ex_state =
     Inr (async_terminate 8 STATUS_CANCELLED ex_state) \<and>
   iosb (asyncs (async_terminate 8 STATUS_CANCELLED ex_state) 8) = Some 2 \<and>
   terminated (asyncs (async_terminate 8 STATUS_CANCELLED ex_state) 8) \<and>
   status (iosbs (async_terminate 8 STATUS_CANCELLED ex_state) 2) \<noteq> STATUS_PENDING \<and>
   \<not> terminated (asyncs ex_state 8) \<and> iosb (asyncs ex_state 8) = Some 2 \<and>
   status (iosbs ex_state 2) = STATUS_PENDING \<and>
   terminated (asyncs (async_terminate 8 STATUS_ALERTED ex_state) 8) \<and>
   alerted (asyncs (async_terminate 8 STATUS_ALERTED ex_state) 8) \<and>
   status (iosbs (async_terminate 8 STATUS_ALERTED ex_state) 2) = STATUS_ALERTED \<and>
   ops (asyncs (async_terminate 8 STATUS_ALERTED ex_state) 8) = Async_ops \<and>
   (\<exists>st1. async_set_result 8 STATUS_PENDING 0 (async_terminate 8 STATUS_ALERTED ex_state) =
            Inr st1 \<and>
          \<not> terminated (asyncs st1 8) \<and> \<not> alerted (asyncs st1 8) \<and>
          iosb (asyncs st1 8) = Some 2 \<and>
          iosbs st1 = iosbs (async_terminate 8 STATUS_ALERTED ex_state))"
proof -
  let ?xs = "[Async_terminate 8 STATUS_ALERTED, Async_set_result 8 STATUS_PENDING 0]"
  let ?zs = "[Queue_async 5 8, Async_terminate 6 STATUS_CANCELLED]"
  let ?cs = "[Async_terminate 8 STATUS_CANCELLED]"
  let ?t = "async_terminate 8 STATUS_ALERTED ex_state"
  let ?r = "async_reselect 8 (upd_async 8 (\<lambda>a. a\<lparr>terminated := False, alerted := False\<rparr>) ?t)"
  let ?q = "queue_async 5 8 ex_state"
  let ?u = "async_terminate 6 STATUS_CANCELLED ?q"
  let ?c = "async_terminate 8 STATUS_CANCELLED ex_state"
  have live: "\<not> terminated (asyncs ex_state 8)" "iosb (asyncs ex_state 8) = Some 2"
    "status (iosbs ex_state 2) = STATUS_PENDING"
    by (simp_all add: ex_state_def ex_async_def ex_iosb_def)
  have lp: "live_is_pending ex_state 8" "iosb_own ex_state 8"
    by (simp_all add: live_is_pending_def iosb_own_def ex_state_def ex_async_def ex_iosb_def)
  have a: "asyncs ?t 8 = ex_async\<lparr>terminated := True, alerted := True\<rparr>"
    using live(1) by (simp add: asyncs_async_terminate_live) (simp add: ex_state_def)
  have np: "STATUS_ALERTED \<noteq> STATUS_PENDING" "STATUS_CANCELLED \<noteq> STATUS_PENDING"
    "STATUS_CANCELLED \<noteq> STATUS_ALERTED"
    by (simp_all add: STATUS_ALERTED_def STATUS_PENDING_def STATUS_CANCELLED_def)
  have sr: "async_set_result 8 STATUS_PENDING 0 ?t = Inr ?r"
    by (simp add: async_set_result_def a ex_async_def)
  have r: "run_all ?xs ex_state = Inr ?r" "run_all ?zs ex_state = Inr ?u"
    "run_all ?cs ex_state = Inr ?c"
    by (simp_all add: sr)
  have h: "holds_along no_pending_status ?xs ex_state"
    "holds_along no_pending_status ?zs ex_state"
    "holds_along no_pending_status ?cs ex_state"
    "holds_along (not_restarting 8) ?zs ex_state"
    "holds_along (not_restarting 8) ?cs ex_state"
    by (simp_all add: np a ex_async_def sr not_restarting_def)
  have i: "status (iosbs ?r 2) = STATUS_ALERTED" "\<not> terminated (asyncs ?r 8)"
    using live by (simp_all add: iosbs_async_terminate_live)
  have u: "asyncs ?u 8 = ex_async\<lparr>queue := Some 5\<rparr>"
    by (simp add: asyncs_async_terminate_other ex_queued)
  have c: "asyncs ?c 8 = ex_async\<lparr>terminated := True\<rparr>"
    using live(1) by (simp add: asyncs_async_terminate_live np) (simp add: ex_state_def)
  from terminated_iosb_not_pending
         [where st = ex_state and xs = ?xs and st' = ?r and p = 8 and b = 2
            and s = STATUS_ALERTED and b' = 2]
       terminated_iosb_not_pending
         [where st = ex_state and xs = ?zs and st' = ?u and p = 8 and b = 2
            and s = STATUS_ALERTED and b' = 2]
       terminated_iosb_not_pending
         [where st = ex_state and xs = ?cs and st' = ?c and p = 8 and b = 2
            and s = STATUS_ALERTED and b' = 2]
       terminated_iosb_not_pending
         [where st = ?t and xs = "[]" and st' = ?t and p = 8 and b = 2
            and s = STATUS_ALERTED and b' = 2 and tot = 0]
  show ?thesis
    using live
    by (simp add: r h i u c a lp ex_state_inv ex_async_def
             del: run_all.simps holds_along.simps)
qed

end
